theory Spec2Isabelle
  imports Main "HOL-Library.Sublist" "HOL-Library.Char_ord" "HOL-Library.List_Lexorder"
begin

section \<open>Python values shared by the models\<close>

text \<open>
  Python strings are modelled as \<^typ>\<open>string\<close>: the patterns, table entries and messages of
  the three source files are ASCII. An exception is a value; a call that may raise returns
  \<open>py_exception + 'a\<close> with \<open>Inl\<close> for the raised exception. The handlers of the sources are
  all \<open>except Exception\<close>: they catch the instances of \<open>Exception\<close> and let pass the exceptions
  that derive from \<open>BaseException\<close> only, such as \<open>KeyboardInterrupt\<close> and \<open>SystemExit\<close>.
\<close>

datatype py_exception =
    UnboundLocalError
  | ValueError
  | AttributeError
  | RaisedError string  \<comment> \<open>any other instance of \<open>Exception\<close>, by a description\<close>
  | KeyboardInterrupt   \<comment> \<open>not an instance of \<open>Exception\<close>\<close>
  | SystemExit          \<comment> \<open>not an instance of \<open>Exception\<close>\<close>

text \<open>\<open>isinstance(ex, Exception)\<close>, the test of every handler.\<close>

fun is_Exception :: "py_exception \<Rightarrow> bool" where
  "is_Exception KeyboardInterrupt = False"
| "is_Exception SystemExit = False"
| "is_Exception ex = True"

text \<open>The apostrophe, which cannot end an Isabelle string literal.\<close>

definition apostrophe :: string where
  "apostrophe = [CHR 0x27]"

section \<open>Regular expressions\<close>

text \<open>
  The patterns of the sources use a small part of Python's \<open>re\<close>: literal text, the anchors
  \<open>^\<close> and \<open>$\<close>, a repeated character class (\<open>.*\<close>, \<open>.*?\<close>, \<open>[0-9]+\<close>, \<open>\w+\<close>), a named
  group and a negative lookahead. No pattern is compiled with a flag, so \<open>.\<close> matches any
  character but a newline, \<open>^\<close> matches at the start of the string only and \<open>$\<close> at its end
  or before a newline that ends it. \<open>\w\<close> is taken on ASCII.
\<close>

definition newline :: char where
  "newline = CHR 0x0A"

datatype char_class = AnyChar | Digit | WordChar

fun in_class :: "char_class \<Rightarrow> char \<Rightarrow> bool" where
  "in_class AnyChar c = (c \<noteq> newline)"
| "in_class Digit c = (48 \<le> (of_char c :: nat) \<and> (of_char c :: nat) \<le> 57)"
| "in_class WordChar c =
     (let n = (of_char c :: nat)
      in (48 \<le> n \<and> n \<le> 57) \<or> (65 \<le> n \<and> n \<le> 90) \<or> n = 95 \<or> (97 \<le> n \<and> n \<le> 122))"

text \<open>
  \<open>Repeat cls lo greedy\<close> is the class repeated at least \<open>lo\<close> times, greedy (\<open>*\<close>, \<open>+\<close>) or
  lazy (\<open>*?\<close>).
\<close>

datatype regex =
    Lit string
  | StartAnchor
  | EndAnchor
  | Repeat char_class nat bool
  | Group string regex
  | NegLookahead regex
  | Seq regex regex

text \<open>
  A backtracking matcher. A state is the position in the subject, the rest of the subject from
  there, and the groups captured so far (the latest first). \<open>rmatch r st\<close> lists the states
  in which a match of \<open>r\<close> started in \<open>st\<close> can end, in the order in which backtracking tries
  them: a greedy repetition tries the longest run first, a lazy one the shortest.
\<close>

type_synonym match_state = "nat \<times> string \<times> (string \<times> string) list"

definition repeat_counts :: "nat \<Rightarrow> nat \<Rightarrow> bool \<Rightarrow> nat list" where
  "repeat_counts lo n greedy = (if greedy then rev [lo..<Suc n] else [lo..<Suc n])"

fun rmatch :: "regex \<Rightarrow> match_state \<Rightarrow> match_state list" where
  "rmatch (Lit l) (pos, s, g) =
     (if prefix l s then [(pos + length l, drop (length l) s, g)] else [])"
| "rmatch StartAnchor (pos, s, g) = (if pos = 0 then [(pos, s, g)] else [])"
| "rmatch EndAnchor (pos, s, g) = (if s = [] \<or> s = [newline] then [(pos, s, g)] else [])"
| "rmatch (Repeat cls lo greedy) (pos, s, g) =
     map (\<lambda>k. (pos + k, drop k s, g))
       (repeat_counts lo (length (takeWhile (in_class cls) s)) greedy)"
| "rmatch (Group name r) (pos, s, g) =
     map (\<lambda>(pos', s', g'). (pos', s', (name, take (pos' - pos) s) # g'))
       (rmatch r (pos, s, g))"
| "rmatch (NegLookahead r) (pos, s, g) =
     (if rmatch r (pos, s, g) = [] then [(pos, s, g)] else [])"
| "rmatch (Seq r1 r2) st = concat (map (rmatch r2) (rmatch r1 st))"

text \<open>The match that is found: the first one tried; its \<open>groupdict()\<close>.\<close>

fun first_match :: "match_state list \<Rightarrow> (string \<times> string) list option" where
  "first_match [] = None"
| "first_match ((pos, s, g) # ms) = Some g"

text \<open>
  \<open>re.search\<close> tries every start from the left, the end of the subject included;
  \<open>re.match\<close> the start of the subject only. The result is \<open>None\<close> or the named groups of the
  match.
\<close>

fun search_from :: "regex \<Rightarrow> nat \<Rightarrow> string \<Rightarrow> (string \<times> string) list option" where
  "search_from r pos [] = first_match (rmatch r (pos, [], []))"
| "search_from r pos (c # s) =
     (case first_match (rmatch r (pos, c # s, [])) of
        Some g \<Rightarrow> Some g
      | None \<Rightarrow> search_from r (Suc pos) s)"

definition re_search :: "regex \<Rightarrow> string \<Rightarrow> (string \<times> string) list option" where
  "re_search r s = search_from r 0 s"

definition re_match :: "regex \<Rightarrow> string \<Rightarrow> (string \<times> string) list option" where
  "re_match r s = first_match (rmatch r (0, s, []))"

text \<open>
  The rest of a message after a match point is the end of the last line and does not contain
  \<open>l\<close>: no newline follows but, at most, one that ends the message. This is what
  \<open>(?!.*l).*$\<close> asks of the text it is tried on.
\<close>

definition last_line_without :: "string \<Rightarrow> string \<Rightarrow> bool" where
  "last_line_without l post =
     (\<not> sublist l (takeWhile (\<lambda>c. c \<noteq> newline) post)
      \<and> (dropWhile (\<lambda>c. c \<noteq> newline) post = []
           \<or> dropWhile (\<lambda>c. c \<noteq> newline) post = [newline]))"

text \<open>\<open>int\<close> of a string of decimal digits.\<close>

definition int_of_digits :: "string \<Rightarrow> int" where
  "int_of_digits ds = foldl (\<lambda>a c. 10 * a + (int (of_char c) - 48)) 0 ds"

section \<open>Engine specs: class attributes\<close>

text \<open>
  Modelled from the spec: the enumeration \<open>TimeGrain\<close> is declared in
  \<open>superset/constants.py\<close>, which is not among the sources; the glossary calls a time grain
  "a named truncation granularity (minute, hour, day, ...)". The members are the ones the two
  engine specs name.
\<close>

datatype TimeGrain =
    SECOND | MINUTE | FIVE_MINUTES | TEN_MINUTES | FIFTEEN_MINUTES | THIRTY_MINUTES
  | HOUR | DAY | WEEK | MONTH | QUARTER | YEAR
  | WEEK_STARTING_SUNDAY | WEEK_STARTING_MONDAY

datatype engine_spec = ImpalaEngineSpec | MssqlEngineSpec | AzureSynapseSpec

text \<open>The class attribute \<open>engine\<close>; \<open>AzureSynapseSpec\<close> sets it to the same string.\<close>

fun engine :: "engine_spec \<Rightarrow> string" where
  "engine ImpalaEngineSpec = ''impala''"
| "engine MssqlEngineSpec = ''mssql''"
| "engine AzureSynapseSpec = ''mssql''"

text \<open>
  The class attribute \<open>_time_grain_expressions\<close>: a dict literal, here the list of its items
  in source order (the keys of each literal are distinct). The key \<open>None\<close> is the absence of a
  grain. In four entries of the SQL Server table a backslash ends the source line inside the
  string literal, so the literal continues with the twelve spaces that indent the next line.
  \<open>AzureSynapseSpec\<close> inherits the table of \<open>MssqlEngineSpec\<close>.
\<close>

definition impala_time_grain_expressions :: "(TimeGrain option \<times> string) list" where
  "impala_time_grain_expressions =
    [(None, ''{col}''),
     (Some MINUTE, ''TRUNC({col}, 'MI')''),
     (Some HOUR, ''TRUNC({col}, 'HH')''),
     (Some DAY, ''TRUNC({col}, 'DD')''),
     (Some WEEK, ''TRUNC({col}, 'WW')''),
     (Some MONTH, ''TRUNC({col}, 'MONTH')''),
     (Some QUARTER, ''TRUNC({col}, 'Q')''),
     (Some YEAR, ''TRUNC({col}, 'YYYY')'')]"

definition mssql_time_grain_expressions :: "(TimeGrain option \<times> string) list" where
  "mssql_time_grain_expressions =
    [(None, ''{col}''),
     (Some SECOND,
        ''DATEADD(SECOND,             DATEDIFF(SECOND, '2000-01-01', {col}), '2000-01-01')''),
     (Some MINUTE, ''DATEADD(MINUTE, DATEDIFF(MINUTE, 0, {col}), 0)''),
     (Some FIVE_MINUTES,
        ''DATEADD(MINUTE,             DATEDIFF(MINUTE, 0, {col}) / 5 * 5, 0)''),
     (Some TEN_MINUTES,
        ''DATEADD(MINUTE,             DATEDIFF(MINUTE, 0, {col}) / 10 * 10, 0)''),
     (Some FIFTEEN_MINUTES,
        ''DATEADD(MINUTE,             DATEDIFF(MINUTE, 0, {col}) / 15 * 15, 0)''),
     (Some THIRTY_MINUTES,
        ''DATEADD(MINUTE,             DATEDIFF(MINUTE, 0, {col}) / 30 * 30, 0)''),
     (Some HOUR, ''DATEADD(HOUR, DATEDIFF(HOUR, 0, {col}), 0)''),
     (Some DAY, ''DATEADD(DAY, DATEDIFF(DAY, 0, {col}), 0)''),
     (Some WEEK,
        ''DATEADD(DAY, 1 - DATEPART(WEEKDAY, {col}), DATEADD(DAY, DATEDIFF(DAY, 0, {col}), 0))''),
     (Some MONTH, ''DATEADD(MONTH, DATEDIFF(MONTH, 0, {col}), 0)''),
     (Some QUARTER, ''DATEADD(QUARTER, DATEDIFF(QUARTER, 0, {col}), 0)''),
     (Some YEAR, ''DATEADD(YEAR, DATEDIFF(YEAR, 0, {col}), 0)''),
     (Some WEEK_STARTING_SUNDAY,
        ''DATEADD(DAY, -1, DATEADD(WEEK, DATEDIFF(WEEK, 0, {col}), 0))''),
     (Some WEEK_STARTING_MONDAY,
        ''DATEADD(WEEK, DATEDIFF(WEEK, 0, DATEADD(DAY, -1, {col})), 0)'')]"

fun time_grain_expressions :: "engine_spec \<Rightarrow> (TimeGrain option \<times> string) list" where
  "time_grain_expressions ImpalaEngineSpec = impala_time_grain_expressions"
| "time_grain_expressions MssqlEngineSpec = mssql_time_grain_expressions"
| "time_grain_expressions AzureSynapseSpec = mssql_time_grain_expressions"

text \<open>
  Reading the table for a grain, as \<open>dict.get\<close> does: \<open>None\<close> when the engine has no entry
  for the grain.
\<close>

definition time_grain_expression :: "engine_spec \<Rightarrow> TimeGrain option \<Rightarrow> string option" where
  "time_grain_expression cls grain = map_of (time_grain_expressions cls) grain"

section \<open>\<open>superset/db_engine_specs/impala.py\<close>: \<open>handle_cursor\<close>\<close>

text \<open>\<open>QUERY_PROGRESS_REGEX\<close>: \<open>Query.*: (?P<query_progress>[0-9]+)%\<close>.\<close>

definition QUERY_PROGRESS_REGEX :: regex where
  "QUERY_PROGRESS_REGEX =
     Seq (Lit ''Query'')
       (Seq (Repeat AnyChar 0 True)
       (Seq (Lit '': '')
       (Seq (Group ''query_progress'' (Repeat Digit 1 True))
            (Lit ''%''))))"

definition unfinished_states :: "string list" where
  "unfinished_states = [''INITIALIZED_STATE'', ''RUNNING_STATE'']"

text \<open>
  What \<open>handle_cursor\<close> does to the cursor, the database session, the logger and the clock,
  in the order in which it does it. A call that raises is recorded as made; \<open>Sleep\<close> records a
  sleep that took place.
\<close>

datatype event =
    Status                  \<comment> \<open>\<open>cursor.status()\<close>\<close>
  | Refresh                 \<comment> \<open>\<open>db.session.refresh(query)\<close>\<close>
  | Requery                 \<comment> \<open>\<open>db.session.query(Query).filter_by(id=query_id).one()\<close>\<close>
  | CancelOperation         \<comment> \<open>\<open>cursor.cancel_operation()\<close>\<close>
  | CloseOperation          \<comment> \<open>\<open>cursor.close_operation()\<close>\<close>
  | CloseCursor             \<comment> \<open>\<open>cursor.close()\<close>\<close>
  | GetLog                  \<comment> \<open>\<open>cursor.get_log()\<close>\<close>
  | LogWarning string       \<comment> \<open>\<open>logger.warning\<close>\<close>
  | LogDebug string         \<comment> \<open>\<open>logger.debug\<close>, by its format string\<close>
  | AssignProgress int      \<comment> \<open>\<open>query.progress = progress\<close>\<close>
  | Commit int              \<comment> \<open>\<open>db.session.commit()\<close>, with the progress it writes\<close>
  | Sleep int               \<comment> \<open>\<open>time.sleep(sleep_interval)\<close>\<close>

text \<open>
  The state of a run: the local variable \<open>progress\<close> (\<open>None\<close> while it is unbound), the
  attribute \<open>query.progress\<close> of the session's object, the progress stored in the query's row
  of the database, and the events so far. The row's progress is written by \<open>handle_cursor\<close>
  alone; the early-cancel key is written from outside and read afresh in every round.
\<close>

record poll_state =
  progress :: "int option"
  query_progress :: int
  stored_progress :: int
  trace :: "event list"

text \<open>
  What the world answers during one round of the loop: whether a call raises, what the
  reloaded query's \<open>extra\<close> holds under \<open>QUERY_EARLY_CANCEL_KEY\<close> (its truth value), what
  \<open>cursor.get_log()\<close> returns (a string or \<open>None\<close>) and what \<open>cursor.status()\<close> returns at the
  end of the round.
\<close>

record poll_round =
  refresh_raises :: "py_exception option"
  requery_raises :: "py_exception option"
  early_cancel :: bool
  cancel_operation_raises :: "py_exception option"
  close_operation_raises :: "py_exception option"
  close_raises :: "py_exception option"
  get_log_result :: "py_exception + string option"
  commit_raises :: "py_exception option"
  status_result :: "py_exception + string"

text \<open>How a round ends: the loop goes on with a new status, \<open>break\<close>, or an exception.\<close>

datatype step = Next string | Break | Raise py_exception

definition record_event :: "event \<Rightarrow> poll_state \<Rightarrow> poll_state" where
  "record_event e s = s\<lparr>trace := trace s @ [e]\<rparr>"

text \<open>The branch taken when the early-cancel key is set.\<close>

definition stop_query :: "poll_state \<Rightarrow> poll_round \<Rightarrow> step \<times> poll_state" where
  "stop_query s r =
     (let s1 = record_event CancelOperation s in
      case cancel_operation_raises r of
        Some ex \<Rightarrow> (Raise ex, s1)
      | None \<Rightarrow>
         (let s2 = record_event CloseOperation s1 in
          case close_operation_raises r of
            Some ex \<Rightarrow> (Raise ex, s2)
          | None \<Rightarrow>
             (let s3 = record_event CloseCursor s2 in
              case close_raises r of
                Some ex \<Rightarrow> (Raise ex, s3)
              | None \<Rightarrow> (Break, s3))))"

text \<open>
  \<open>log = cursor.get_log() or ""\<close> inside its own \<open>try\<close>, whose handler
  \<open>except Exception\<close> logs a warning and gives the empty log. \<open>fetched_log\<close> is the log the
  round gets, or the exception that passes the handler.
\<close>

definition fetched_log :: "poll_round \<Rightarrow> py_exception + string" where
  "fetched_log r =
     (case get_log_result r of
        Inl ex \<Rightarrow> if is_Exception ex then Inr [] else Inl ex
      | Inr None \<Rightarrow> Inr []
      | Inr (Some l) \<Rightarrow> Inr l)"

definition read_log :: "poll_state \<Rightarrow> poll_round \<Rightarrow> (py_exception + string) \<times> poll_state" where
  "read_log s r =
     (let s1 = record_event GetLog s in
      case get_log_result r of
        Inl ex \<Rightarrow>
          if is_Exception ex
          then (Inr [], record_event (LogWarning ''Call to GetLog() failed'') s1)
          else (Inl ex, s1)
      | Inr None \<Rightarrow> (Inr [], s1)
      | Inr (Some l) \<Rightarrow> (Inr l, s1))"

text \<open>The progress a log line reports: \<open>QUERY_PROGRESS_REGEX.match(log)\<close> and \<open>int\<close> of its group.\<close>

definition parse_progress :: "string \<Rightarrow> int option" where
  "parse_progress l =
     (case re_match QUERY_PROGRESS_REGEX l of
        None \<Rightarrow> None
      | Some groups \<Rightarrow> map_option int_of_digits (map_of groups ''query_progress''))"

text \<open>
  The block under \<open>if log:\<close>. The variable \<open>progress\<close> is assigned only when the log matches;
  \<open>str(progress)\<close> reads it, and raises \<open>UnboundLocalError\<close> when no round has assigned it
  yet. The result is the exception raised, if any.
\<close>

definition update_progress ::
  "poll_state \<Rightarrow> poll_round \<Rightarrow> string \<Rightarrow> py_exception option \<times> poll_state" where
  "update_progress s r l =
     (let s1 = (case parse_progress l of
                  Some p \<Rightarrow> s\<lparr>progress := Some p\<rparr>
                | None \<Rightarrow> s) in
      case progress s1 of
        None \<Rightarrow> (Some UnboundLocalError, s1)
      | Some p \<Rightarrow>
         (let s2 = record_event (LogDebug ''Query %s: Progress total: %s'') s1 in
          if p > query_progress s2
          then
            (let s3 = record_event (Commit p)
                        (record_event (AssignProgress p) (s2\<lparr>query_progress := p\<rparr>)) in
             case commit_raises r of
               Some ex \<Rightarrow> (Some ex, s3)
             | None \<Rightarrow> (None, s3\<lparr>stored_progress := p\<rparr>))
          else (None, s2)))"

text \<open>
  \<open>app.config["DB_POLL_INTERVAL_SECONDS"].get(cls.engine, 5)\<close>; the configured dict is a
  parameter (\<open>config.py\<close> sets it to the empty dict).
\<close>

definition sleep_interval :: "(string \<Rightarrow> int option) \<Rightarrow> int" where
  "sleep_interval db_poll_interval_seconds =
     (case db_poll_interval_seconds (engine ImpalaEngineSpec) of
        Some seconds \<Rightarrow> seconds
      | None \<Rightarrow> 5)"

text \<open>
  The end of a round: \<open>time.sleep\<close> (which raises \<open>ValueError\<close> for a negative length) and the
  next \<open>cursor.status()\<close>.
\<close>

definition sleep_and_poll ::
  "(string \<Rightarrow> int option) \<Rightarrow> poll_state \<Rightarrow> poll_round \<Rightarrow> step \<times> poll_state" where
  "sleep_and_poll db_poll_interval_seconds s r =
     (if sleep_interval db_poll_interval_seconds < 0 then (Raise ValueError, s)
      else
        (let s1 = record_event Status
                    (record_event (Sleep (sleep_interval db_poll_interval_seconds)) s) in
         case status_result r of
           Inl ex \<Rightarrow> (Raise ex, s1)
         | Inr status \<Rightarrow> (Next status, s1)))"

text \<open>
  One round of the loop. \<open>db.session.refresh(query)\<close> reloads the object from its row, so
  \<open>query.progress\<close> is the stored progress afterwards.
\<close>

definition loop_body ::
  "(string \<Rightarrow> int option) \<Rightarrow> poll_state \<Rightarrow> poll_round \<Rightarrow> step \<times> poll_state" where
  "loop_body db_poll_interval_seconds s r =
     (let s1 = record_event Refresh s in
      case refresh_raises r of
        Some ex \<Rightarrow> (Raise ex, s1)
      | None \<Rightarrow>
         (let s2 = record_event Requery (s1\<lparr>query_progress := stored_progress s1\<rparr>) in
          case requery_raises r of
            Some ex \<Rightarrow> (Raise ex, s2)
          | None \<Rightarrow>
              if early_cancel r then stop_query s2 r
              else
                (case read_log s2 r of
                   (Inl ex, s3) \<Rightarrow> (Raise ex, s3)
                 | (Inr l, s3) \<Rightarrow>
                     if l \<noteq> []
                     then
                       (case update_progress s3 r l of
                          (Some ex, s4) \<Rightarrow> (Raise ex, s4)
                        | (None, s4) \<Rightarrow> sleep_and_poll db_poll_interval_seconds s4 r)
                     else sleep_and_poll db_poll_interval_seconds s3 r)))"

text \<open>
  The \<open>while\<close> loop, run against the rounds the world provides. It may poll for ever; when
  the rounds given are used up and the status is still unfinished, the result is \<open>Pending\<close>: the
  run is at the head of the loop, about to start another round.
\<close>

datatype loop_exit = Finished | Raised py_exception | Pending

fun poll_loop ::
  "(string \<Rightarrow> int option) \<Rightarrow> string \<Rightarrow> poll_state \<Rightarrow> poll_round list
     \<Rightarrow> loop_exit \<times> poll_state" where
  "poll_loop cfg status s [] =
     (if status \<in> set unfinished_states then (Pending, s) else (Finished, s))"
| "poll_loop cfg status s (r # rs) =
     (if status \<in> set unfinished_states
      then
        (case loop_body cfg s r of
           (Next status', s') \<Rightarrow> poll_loop cfg status' s' rs
         | (Break, s') \<Rightarrow> (Finished, s')
         | (Raise ex, s') \<Rightarrow> (Raised ex, s'))
      else (Finished, s))"

text \<open>
  The body of the \<open>try\<close> statement: the first \<open>cursor.status()\<close> and the loop. The query
  enters with its progress attribute and its stored progress; \<open>progress\<close> is unbound.
\<close>

definition handle_cursor_try ::
  "(string \<Rightarrow> int option) \<Rightarrow> (py_exception + string) \<Rightarrow> int \<times> int \<Rightarrow> poll_round list
     \<Rightarrow> loop_exit \<times> poll_state" where
  "handle_cursor_try cfg first_status query rounds =
     (let s0 = \<lparr>progress = None, query_progress = fst query, stored_progress = snd query,
                trace = [Status]\<rparr> in
      case first_status of
        Inl ex \<Rightarrow> (Raised ex, s0)
      | Inr status \<Rightarrow> poll_loop cfg status s0 rounds)"

text \<open>
  \<open>handle_cursor\<close> from its \<open>try\<close> statement on: the handler \<open>except Exception\<close> logs and
  returns, and an exception it does not catch leaves \<open>handle_cursor\<close>. \<open>Running\<close> is a run that
  has not left the loop within the rounds given.
\<close>

datatype call_outcome = Returns | Propagates py_exception | Running

definition handle_cursor ::
  "(string \<Rightarrow> int option) \<Rightarrow> (py_exception + string) \<Rightarrow> int \<times> int \<Rightarrow> poll_round list
     \<Rightarrow> call_outcome \<times> poll_state" where
  "handle_cursor cfg first_status query rounds =
     (case handle_cursor_try cfg first_status query rounds of
        (Finished, s) \<Rightarrow> (Returns, s)
      | (Raised ex, s) \<Rightarrow>
          if is_Exception ex
          then (Returns, record_event (LogDebug ''Call to status() failed '') s)
          else (Propagates ex, s)
      | (Pending, s) \<Rightarrow> (Running, s))"


text \<open>
  The value of \<open>progress\<close>, once bound, is at most the stored progress: the invariant of the
  loop head. \<open>new_events s s'\<close> are the events between two states of a run.
\<close>

definition progress_bounded :: "poll_state \<Rightarrow> bool" where
  "progress_bounded s = (case progress s of None \<Rightarrow> True | Some p \<Rightarrow> p \<le> stored_progress s)"

definition new_events :: "poll_state \<Rightarrow> poll_state \<Rightarrow> event list" where
  "new_events s s' = drop (length (trace s)) (trace s')"

section \<open>\<open>superset/db_engine_specs/impala.py\<close>: \<open>cancel_query\<close>\<close>

text \<open>
  A \<open>requests.Response\<close>, as far as \<open>cancel_query\<close> reads it. Its truth value is its
  property \<open>ok\<close>: false exactly for a status code from 400 up to 599.
\<close>

record response =
  status_code :: int

definition response_bool :: "response \<Rightarrow> bool" where
  "response_bool r = (\<not> (400 \<le> status_code r \<and> status_code r < 600))"

text \<open>\<open>str\<close> of the host of the database URL, which may be \<open>None\<close>.\<close>

fun str_of_host :: "string option \<Rightarrow> string" where
  "str_of_host None = ''None''"
| "str_of_host (Some h) = h"

definition cancel_query_url :: "string option \<Rightarrow> string \<Rightarrow> string" where
  "cancel_query_url impala_host cancel_query_id =
     ''http://'' @ str_of_host impala_host @ '':25000/cancel_query?query_id='' @ cancel_query_id"

text \<open>
  \<open>cancel_query\<close>. The environment is the result of reading
  \<open>query.database.url_object.host\<close> (it may raise) and \<open>requests.post\<close>, a function of the URL
  and the timeout that returns a response or raises. The \<open>try\<close> block is
  \<open>cancel_query_request\<close>; the handler \<open>except Exception\<close> returns \<open>False\<close>, and an exception
  it does not catch leaves \<open>cancel_query\<close>.
\<close>

definition cancel_query_request ::
  "(py_exception + string option) \<Rightarrow> (string \<Rightarrow> nat \<Rightarrow> py_exception + response) \<Rightarrow> string
     \<Rightarrow> py_exception + response" where
  "cancel_query_request host_result post cancel_query_id =
     (case host_result of
        Inl ex \<Rightarrow> Inl ex
      | Inr impala_host \<Rightarrow> post (cancel_query_url impala_host cancel_query_id) 3)"

definition cancel_query ::
  "(py_exception + string option) \<Rightarrow> (string \<Rightarrow> nat \<Rightarrow> py_exception + response) \<Rightarrow> string
     \<Rightarrow> py_exception + bool" where
  "cancel_query host_result post cancel_query_id =
     (case cancel_query_request host_result post cancel_query_id of
        Inl ex \<Rightarrow> if is_Exception ex then Inr False else Inl ex
      | Inr response \<Rightarrow>
          Inr (if response_bool response then status_code response = 200 else False))"

section \<open>\<open>superset/db_engine_specs/mssql.py\<close>: \<open>custom_errors\<close>\<close>

text \<open>The four patterns, as \<open>re.compile\<close> receives them.\<close>

definition CONNECTION_ACCESS_DENIED_REGEX :: regex where
  "CONNECTION_ACCESS_DENIED_REGEX = Lit ''Adaptive Server connection failed''"

text \<open>
  \<open>Adaptive Server is unavailable or does not exist \((?P<hostname>.*?)\)(?!.*Net-Lib error).*$\<close>
\<close>

definition CONNECTION_INVALID_HOSTNAME_REGEX :: regex where
  "CONNECTION_INVALID_HOSTNAME_REGEX =
     Seq (Lit ''Adaptive Server is unavailable or does not exist ('')
       (Seq (Group ''hostname'' (Repeat AnyChar 0 False))
       (Seq (Lit '')'')
       (Seq (NegLookahead (Seq (Repeat AnyChar 0 True) (Lit ''Net-Lib error'')))
       (Seq (Repeat AnyChar 0 True) EndAnchor))))"

definition CONNECTION_PORT_CLOSED_REGEX :: regex where
  "CONNECTION_PORT_CLOSED_REGEX = Lit ''Net-Lib error during Connection refused (61)''"

definition CONNECTION_HOST_DOWN_REGEX :: regex where
  "CONNECTION_HOST_DOWN_REGEX = Lit ''Net-Lib error during Operation timed out (60)''"

text \<open>
  Modelled from the spec: the enumeration \<open>SupersetErrorType\<close> is declared in
  \<open>superset/errors.py\<close>, outside the sources; these are the members that the "error message
  patterns" of the SQL Server engine spec name.
\<close>

datatype SupersetErrorType =
    CONNECTION_ACCESS_DENIED_ERROR
  | CONNECTION_INVALID_HOSTNAME_ERROR
  | CONNECTION_PORT_CLOSED_ERROR
  | CONNECTION_HOST_DOWN_ERROR

definition doublequote :: string where
  "doublequote = [CHR 0x22]"

text \<open>
  The class attribute \<open>custom_errors\<close>: the items of the dict literal in source order, each a
  pattern with its message template (the argument of gettext), its error type and its
  extra dict, which is empty.
\<close>

definition custom_errors ::
  "(regex \<times> string \<times> SupersetErrorType \<times> (string \<times> string) list) list" where
  "custom_errors =
    [(CONNECTION_ACCESS_DENIED_REGEX,
        ''Either the username '' @ doublequote @ ''%(username)s'' @ doublequote @
        '', password, or database name '' @ doublequote @ ''%(database)s'' @ doublequote @
        '' is incorrect.'',
        CONNECTION_ACCESS_DENIED_ERROR, []),
     (CONNECTION_INVALID_HOSTNAME_REGEX,
        ''The hostname '' @ doublequote @ ''%(hostname)s'' @ doublequote @
        '' cannot be resolved.'',
        CONNECTION_INVALID_HOSTNAME_ERROR, []),
     (CONNECTION_PORT_CLOSED_REGEX,
        ''Port %(port)s on hostname '' @ doublequote @ ''%(hostname)s'' @ doublequote @
        '' refused the connection.'',
        CONNECTION_PORT_CLOSED_ERROR, []),
     (CONNECTION_HOST_DOWN_REGEX,
        ''The host '' @ doublequote @ ''%(hostname)s'' @ doublequote @
        '' might be down, and can't be reached on port %(port)s.'',
        CONNECTION_HOST_DOWN_ERROR, [])]"

section \<open>\<open>superset/db_engine_specs/mssql.py\<close>: \<open>convert_dttm\<close>\<close>

text \<open>
  A \<open>datetime\<close>: its fields and the text of its UTC offset as \<open>isoformat\<close> appends it (empty
  for a naive datetime).
\<close>

record datetime =
  year :: nat
  month :: nat
  day :: nat
  hour :: nat
  minute :: nat
  second :: nat
  microsecond :: nat
  utcoffset_text :: string

text \<open>Decimal digits of a number, and the number padded with zeros as \<open>%0wd\<close> prints it.\<close>

definition digit_char :: "nat \<Rightarrow> char" where
  "digit_char d = ''0123456789'' ! d"

fun decimal :: "nat \<Rightarrow> string" where
  "decimal n =
     (if n < 10 then [digit_char n]
      else decimal (n div 10) @ [digit_char (n mod 10)])"

declare decimal.simps [simp del]

definition zero_padded :: "nat \<Rightarrow> nat \<Rightarrow> string" where
  "zero_padded width n = replicate (width - length (decimal n)) CHR ''0'' @ decimal n"

text \<open>\<open>dttm.date().isoformat()\<close>\<close>

definition date_isoformat :: "datetime \<Rightarrow> string" where
  "date_isoformat dttm =
     zero_padded 4 (year dttm) @ ''-'' @ zero_padded 2 (month dttm) @ ''-'' @
     zero_padded 2 (day dttm)"

definition time_to_seconds :: "datetime \<Rightarrow> string" where
  "time_to_seconds dttm =
     zero_padded 2 (hour dttm) @ '':'' @ zero_padded 2 (minute dttm) @ '':'' @
     zero_padded 2 (second dttm)"

text \<open>\<open>dttm.isoformat(sep=" ", timespec="seconds")\<close>\<close>

definition isoformat_seconds :: "datetime \<Rightarrow> string" where
  "isoformat_seconds dttm =
     date_isoformat dttm @ '' '' @ time_to_seconds dttm @ utcoffset_text dttm"

text \<open>\<open>dttm.isoformat(timespec="milliseconds")\<close>: the microseconds are cut, not rounded.\<close>

definition isoformat_milliseconds :: "datetime \<Rightarrow> string" where
  "isoformat_milliseconds dttm =
     date_isoformat dttm @ ''T'' @ time_to_seconds dttm @ ''.'' @
     zero_padded 3 (microsecond dttm div 1000) @ utcoffset_text dttm"

text \<open>
  The SQLAlchemy type of a column, as far as \<open>convert_dttm\<close> looks at it: the results of its
  three \<open>isinstance\<close> tests.
\<close>

record sqla_type =
  isinstance_Date :: bool
  isinstance_SMALLDATETIME :: bool
  isinstance_DateTime :: bool

text \<open>
  \<open>convert_dttm\<close>. The inherited \<open>get_sqla_column_type\<close> (of the base class, outside the
  sources) is a parameter; it returns a type or \<open>None\<close>.
\<close>

definition convert_dttm ::
  "(string \<Rightarrow> sqla_type option) \<Rightarrow> string \<Rightarrow> datetime \<Rightarrow> string option" where
  "convert_dttm get_sqla_column_type target_type dttm =
     (case get_sqla_column_type target_type of
        None \<Rightarrow> None
      | Some sqla_type \<Rightarrow>
          if isinstance_Date sqla_type
          then Some (''CONVERT(DATE, '' @ apostrophe @ date_isoformat dttm @ apostrophe @ '', 23)'')
          else if isinstance_SMALLDATETIME sqla_type
          then Some (''CONVERT(SMALLDATETIME, '' @ apostrophe @ isoformat_seconds dttm @
                     apostrophe @ '', 20)'')
          else if isinstance_DateTime sqla_type
          then Some (''CONVERT(DATETIME, '' @ apostrophe @ isoformat_milliseconds dttm @
                     apostrophe @ '', 126)'')
          else None)"

section \<open>\<open>superset/db_engine_specs/mssql.py\<close>: \<open>extract_error_message\<close>\<close>

text \<open>
  \<open>extract_error_message\<close>. \<open>str\<close> of the exception and the inherited
  \<open>_extract_error_message\<close> (defined in the base class, outside the sources) are parameters.
\<close>

definition extract_error_message ::
  "engine_spec \<Rightarrow> ('ex \<Rightarrow> string) \<Rightarrow> ('ex \<Rightarrow> string) \<Rightarrow> 'ex \<Rightarrow> string" where
  "extract_error_message cls str_of base_extract_error_message ex =
     (if prefix ''(8155,'' (str_of ex)
      then engine cls @ '' error: All your SQL functions need to '' @
           ''have an alias on MSSQL. For example: SELECT COUNT(*) AS C1 FROM TABLE1''
      else engine cls @ '' error: '' @ base_extract_error_message ex)"

section \<open>\<open>superset/config.py\<close>: feature flags\<close>

text \<open>
  A dict built from items in order: a later item with the same key replaces an earlier one.
\<close>

definition dict_of :: "('k \<times> 'v) list \<Rightarrow> ('k \<Rightarrow> 'v option)" where
  "dict_of items = map_of (rev items)"

text \<open>The dict literal \<open>DEFAULT_FEATURE_FLAGS\<close>, its items in source order.\<close>

definition DEFAULT_FEATURE_FLAGS :: "(string \<times> bool) list" where
  "DEFAULT_FEATURE_FLAGS =
    [(''DRUID_JOINS'', False),
     (''DYNAMIC_PLUGINS'', False),
     (''ENABLE_TEMPLATE_PROCESSING'', False),
     (''ENABLE_JAVASCRIPT_CONTROLS'', False),
     (''PRESTO_EXPAND_DATA'', False),
     (''THUMBNAILS'', False),
     (''ENABLE_DASHBOARD_SCREENSHOT_ENDPOINTS'', False),
     (''ENABLE_DASHBOARD_DOWNLOAD_WEBDRIVER_SCREENSHOT'', False),
     (''TAGGING_SYSTEM'', False),
     (''SQLLAB_BACKEND_PERSISTENCE'', True),
     (''LISTVIEWS_DEFAULT_CARD_VIEW'', False),
     (''ESCAPE_MARKDOWN_HTML'', False),
     (''DASHBOARD_VIRTUALIZATION'', True),
     (''GLOBAL_ASYNC_QUERIES'', False),
     (''EMBEDDED_SUPERSET'', False),
     (''ALERT_REPORTS'', False),
     (''ALERT_REPORT_TABS'', False),
     (''ALERT_REPORT_SLACK_V2'', False),
     (''DASHBOARD_RBAC'', False),
     (''ENABLE_ADVANCED_DATA_TYPES'', False),
     (''ALERTS_ATTACH_REPORTS'', True),
     (''ALLOW_FULL_CSV_EXPORT'', False),
     (''ALLOW_ADHOC_SUBQUERY'', False),
     (''USE_ANALOGOUS_COLORS'', False),
     (''RLS_IN_SQLLAB'', False),
     (''OPTIMIZE_SQL'', False),
     (''IMPERSONATE_WITH_EMAIL_PREFIX'', False),
     (''CACHE_IMPERSONATION'', False),
     (''CACHE_QUERY_BY_USER'', False),
     (''EMBEDDABLE_CHARTS'', True),
     (''DRILL_TO_DETAIL'', True),
     (''DRILL_BY'', True),
     (''DATAPANEL_CLOSED_BY_DEFAULT'', False),
     (''FILTERBAR_CLOSED_BY_DEFAULT'', False),
     (''ESTIMATE_QUERY_COST'', False),
     (''SSH_TUNNELING'', False),
     (''AVOID_COLORS_COLLISION'', True),
     (''MENU_HIDE_USER_INFO'', False),
     (''ENABLE_SUPERSET_META_DB'', False),
     (''PLAYWRIGHT_REPORTS_AND_THUMBNAILS'', False),
     (''CHART_PLUGINS_EXPERIMENTAL'', False),
     (''SQLLAB_FORCE_RUN_ASYNC'', False),
     (''ENABLE_FACTORY_RESET_COMMAND'', False),
     (''SLACK_ENABLE_AVATARS'', False),
     (''CSS_TEMPLATES'', True),
     (''DATE_FORMAT_IN_EMAIL_SUBJECT'', False),
     (''DATASET_FOLDERS'', False),
     (''AG_GRID_TABLE_ENABLED'', False),
     (''TABLE_V2_TIME_COMPARISON_ENABLED'', False)]"

text \<open>The pattern \<open>^SUPERSET_FEATURE_\w+\<close> of the update.\<close>

definition FEATURE_FLAG_ENV_REGEX :: regex where
  "FEATURE_FLAG_ENV_REGEX =
     Seq StartAnchor (Seq (Lit ''SUPERSET_FEATURE_'') (Repeat WordChar 1 True))"

text \<open>
  The dict comprehension over \<open>os.environ.items()\<close>: for every variable whose name the
  pattern is found in, the name without its first \<open>len("SUPERSET_FEATURE_")\<close> characters and
  \<open>parse_boolean_string\<close> of the value. \<open>parse_boolean_string\<close> is imported from
  \<open>superset.utils.core\<close>, outside the sources, and is a parameter. The environment is the
  list of its items; its names are distinct.
\<close>

definition feature_flags_from_environ ::
  "(string \<Rightarrow> bool) \<Rightarrow> (string \<times> string) list \<Rightarrow> (string \<times> bool) list" where
  "feature_flags_from_environ parse_boolean_string environ =
     map (\<lambda>(k, v). (drop (length ''SUPERSET_FEATURE_'') k, parse_boolean_string v))
       (filter (\<lambda>(k, v). re_search FEATURE_FLAG_ENV_REGEX k \<noteq> None) environ)"

text \<open>\<open>DEFAULT_FEATURE_FLAGS\<close> after \<open>DEFAULT_FEATURE_FLAGS.update(...)\<close>.\<close>

definition updated_feature_flags ::
  "(string \<Rightarrow> bool) \<Rightarrow> (string \<times> string) list \<Rightarrow> (string \<Rightarrow> bool option)" where
  "updated_feature_flags parse_boolean_string environ =
     dict_of DEFAULT_FEATURE_FLAGS
       ++ dict_of (feature_flags_from_environ parse_boolean_string environ)"

section \<open>\<open>superset/config.py\<close>: the deployment override\<close>

text \<open>
  The values of module attributes, as far as the override block tells them apart, and a
  module: the items of its namespace (the first item of a name is its value) and its
  \<open>__all__\<close>, when it defines one.
\<close>

datatype pyval =
    PyStr string
  | PyInt int
  | PyBool bool
  | PyNone
  | PyModule string               \<comment> \<open>a module object, by its name\<close>
  | PyModuleSpec string string    \<comment> \<open>a module spec: name and file location\<close>
  | PyDict "(string \<times> pyval) list"  \<comment> \<open>a dict with string keys, by its items in order\<close>
  | PyObject string               \<comment> \<open>any other object, by a description\<close>

record pymodule =
  attributes :: "(string \<times> pyval) list"
  dunder_all :: "string list option"

definition CONFIG_PATH_ENV_VAR :: string where
  "CONFIG_PATH_ENV_VAR = ''SUPERSET_CONFIG_PATH''"

text \<open>
  \<open>str.isupper\<close>, on ASCII: no lowercase letter and at least one uppercase letter.
\<close>

definition is_upper_char :: "char \<Rightarrow> bool" where
  "is_upper_char c = (65 \<le> (of_char c :: nat) \<and> (of_char c :: nat) \<le> 90)"

definition is_lower_char :: "char \<Rightarrow> bool" where
  "is_lower_char c = (97 \<le> (of_char c :: nat) \<and> (of_char c :: nat) \<le> 122)"

definition isupper :: "string \<Rightarrow> bool" where
  "isupper s = (list_ex is_upper_char s \<and> \<not> list_ex is_lower_char s)"

text \<open>
  \<open>dir(override_conf)\<close> is the sorted list of the module's names; the loop reads each with
  \<open>getattr\<close>.
\<close>

definition dir_items :: "pymodule \<Rightarrow> (string \<times> pyval) list" where
  "dir_items m =
     List.map_filter (\<lambda>key. map_option (Pair key) (map_of (attributes m) key))
       (sort (remdups (map fst (attributes m))))"

text \<open>
  The loop \<open>for key in dir(override_conf): if key.isupper(): setattr(module, key, ...)\<close>. It
  runs at module level, so \<open>key\<close> itself is a name of the config module.
\<close>

fun copy_settings ::
  "(string \<times> pyval) list \<Rightarrow> (string \<Rightarrow> pyval option) \<Rightarrow> (string \<Rightarrow> pyval option)" where
  "copy_settings [] config = config"
| "copy_settings ((key, val) # items) config =
     copy_settings items
       (if isupper key then (config(''key'' \<mapsto> PyStr key))(key \<mapsto> val)
        else config(''key'' \<mapsto> PyStr key))"

text \<open>
  \<open>from superset_config import *\<close> binds the names of \<open>__all__\<close>, or without it every name
  that does not start with an underscore; a name of \<open>__all__\<close> that the module lacks raises
  \<open>AttributeError\<close>.
\<close>

definition star_import_names :: "pymodule \<Rightarrow> string list" where
  "star_import_names m =
     (case dunder_all m of
        Some names \<Rightarrow> names
      | None \<Rightarrow> filter (\<lambda>name. \<not> prefix ''_'' name) (map fst (attributes m)))"

fun import_names ::
  "pymodule \<Rightarrow> string list \<Rightarrow> (string \<Rightarrow> pyval option)
     \<Rightarrow> py_exception + (string \<Rightarrow> pyval option)" where
  "import_names m [] config = Inr config"
| "import_names m (name # names) config =
     (case map_of (attributes m) name of
        None \<Rightarrow> Inl AttributeError
      | Some val \<Rightarrow> import_names m names (config(name \<mapsto> val)))"

text \<open>
  What the block at the end of \<open>config.py\<close> finds: the environment, what loading the file at a
  path as module \<open>superset_config\<close> gives (the module, or the exception of
  \<open>spec_from_file_location\<close>, \<open>module_from_spec\<close> or \<open>exec_module\<close>), and what importing
  \<open>superset_config\<close> gives (\<open>None\<close> when \<open>find_spec\<close> finds no such module).
\<close>

record import_env =
  os_environ :: "(string \<times> string) list"
  exec_config_file :: "string \<Rightarrow> py_exception + pymodule"
  import_superset_config :: "(py_exception + pymodule) option"

text \<open>The names the first branch of the block binds for its own use.\<close>

definition block_names :: "string list" where
  "block_names = [''cfg_path'', ''module'', ''spec'', ''override_conf'', ''key'']"

text \<open>
  The block, applied to the namespace of the config module as the statements above it left it.
  The result is the namespace after the block, or the exception that the block logs and raises
  again, which fails the import of \<open>superset.config\<close>. The messages printed by \<open>click.secho\<close>
  are left out.
\<close>

definition load_override ::
  "import_env \<Rightarrow> (string \<Rightarrow> pyval option) \<Rightarrow> py_exception + (string \<Rightarrow> pyval option)" where
  "load_override env config =
     (case map_of (os_environ env) CONFIG_PATH_ENV_VAR of
        Some cfg_path \<Rightarrow>
          (case exec_config_file env cfg_path of
             Inl ex \<Rightarrow> Inl ex
           | Inr override_conf \<Rightarrow>
               Inr (copy_settings (dir_items override_conf)
                      (config(''cfg_path'' \<mapsto> PyStr cfg_path,
                              ''module'' \<mapsto> PyModule ''superset.config'',
                              ''spec'' \<mapsto> PyModuleSpec ''superset_config'' cfg_path,
                              ''override_conf'' \<mapsto> PyModule ''superset_config''))))
      | None \<Rightarrow>
          (case import_superset_config env of
             None \<Rightarrow> Inr config
           | Some (Inl ex) \<Rightarrow> Inl ex
           | Some (Inr superset_config) \<Rightarrow>
               import_names superset_config (star_import_names superset_config)
                 (config(''superset_config'' \<mapsto> PyModule ''superset_config''))))"

text \<open>The value of a name after the block; \<open>None\<close> when the name is unbound or the import failed.\<close>

definition setting_after :: "py_exception + (string \<Rightarrow> pyval option) \<Rightarrow> string \<Rightarrow> pyval option" where
  "setting_after result name = (case result of Inl ex \<Rightarrow> None | Inr config \<Rightarrow> config name)"

section \<open>\<open>superset/config.py\<close>: the feature flags of the loaded module\<close>

text \<open>
  Loading \<open>config.py\<close>, as far as the name \<open>DEFAULT_FEATURE_FLAGS\<close> goes: the dict literal, the
  update from the environment, then the override block at the end of the file. No statement in
  between assigns the name or changes the dict. \<open>settings\<close> holds the other names the module
  has bound when the block is reached.
\<close>

definition feature_flag_items ::
  "(string \<Rightarrow> bool) \<Rightarrow> (string \<times> string) list \<Rightarrow> (string \<times> pyval) list" where
  "feature_flag_items parse_boolean_string environ =
     map (\<lambda>(k, v). (k, PyBool v))
       (DEFAULT_FEATURE_FLAGS @ feature_flags_from_environ parse_boolean_string environ)"

definition load_config ::
  "(string \<Rightarrow> bool) \<Rightarrow> import_env \<Rightarrow> (string \<Rightarrow> pyval option)
     \<Rightarrow> py_exception + (string \<Rightarrow> pyval option)" where
  "load_config parse_boolean_string env settings =
     load_override env
       (settings(''DEFAULT_FEATURE_FLAGS'' \<mapsto>
          PyDict (feature_flag_items parse_boolean_string (os_environ env))))"

text \<open>\<open>DEFAULT_FEATURE_FLAGS.get(name)\<close> in the loaded module.\<close>

definition feature_flag :: "(string \<Rightarrow> pyval option) \<Rightarrow> string \<Rightarrow> pyval option" where
  "feature_flag config name =
     (case config ''DEFAULT_FEATURE_FLAGS'' of
        Some (PyDict items) \<Rightarrow> dict_of items name
      | _ \<Rightarrow> None)"

text \<open>
  Whether the block takes a name from the override: in the first branch it copies the names of
  the loaded file for which \<open>key.isupper()\<close> holds, in the second the star import binds the
  names it exports.
\<close>

definition override_binds :: "import_env \<Rightarrow> string \<Rightarrow> bool" where
  "override_binds env name =
     (case map_of (os_environ env) CONFIG_PATH_ENV_VAR of
        Some cfg_path \<Rightarrow>
          (case exec_config_file env cfg_path of
             Inl ex \<Rightarrow> False
           | Inr override_conf \<Rightarrow>
               isupper name \<and> map_of (attributes override_conf) name \<noteq> None)
      | None \<Rightarrow>
          (case import_superset_config env of
             None \<Rightarrow> False
           | Some (Inl ex) \<Rightarrow> False
           | Some (Inr superset_config) \<Rightarrow> name \<in> set (star_import_names superset_config)))"

section \<open>Example inputs\<close>

text \<open>
  Messages of the SQL Server driver: an unknown host; a closed port, where the line on the host
  is followed by a line of Net-Lib; the same with the Net-Lib text on the line of the host; and
  an unknown host where the line on the host is followed by another line.
\<close>

definition unknown_host_message :: string where
  "unknown_host_message =
     ''DB-Lib error message 20009, severity 9:'' @ [newline] @
     ''Unable to connect: Adaptive Server is unavailable or does not exist (locahost)'' @
     [newline]"

definition port_closed_message :: string where
  "port_closed_message =
     ''DB-Lib error message 20009, severity 9:'' @ [newline] @
     ''Unable to connect: Adaptive Server is unavailable or does not exist (localhost)'' @
     [newline] @ ''Net-Lib error during Connection refused (61)'' @ [newline]"

definition same_line_message :: string where
  "same_line_message =
     ''Unable to connect: Adaptive Server is unavailable or does not exist (localhost) '' @
     ''Net-Lib error during Connection refused (61)''"

definition further_lines_message :: string where
  "further_lines_message =
     ''Unable to connect: Adaptive Server is unavailable or does not exist (locahost)'' @
     [newline] @ ''DB-Lib error message 20009, severity 9:'' @ [newline]"

text \<open>
  A naive datetime, 2019-01-02 03:04:05.678900, and a lookup of column types that knows four
  type names.
\<close>

definition example_dttm :: datetime where
  "example_dttm =
     \<lparr>year = 2019, month = 1, day = 2, hour = 3, minute = 4, second = 5,
      microsecond = 678900, utcoffset_text = ''''\<rparr>"

definition example_column_type :: "string \<Rightarrow> sqla_type option" where
  "example_column_type target_type =
     (if target_type = ''DATE''
      then Some \<lparr>isinstance_Date = True, isinstance_SMALLDATETIME = False,
                 isinstance_DateTime = False\<rparr>
      else if target_type = ''SMALLDATETIME''
      then Some \<lparr>isinstance_Date = False, isinstance_SMALLDATETIME = True,
                 isinstance_DateTime = True\<rparr>
      else if target_type = ''DATETIME''
      then Some \<lparr>isinstance_Date = False, isinstance_SMALLDATETIME = False,
                 isinstance_DateTime = True\<rparr>
      else if target_type = ''NVARCHAR''
      then Some \<lparr>isinstance_Date = False, isinstance_SMALLDATETIME = False,
                 isinstance_DateTime = False\<rparr>
      else None)"

text \<open>
  Rounds of the polling loop: one in which nothing happens (no log, status still running) and
  one whose log reports 3 percent; the state in which a query with progress 0 enters the loop.
\<close>

definition quiet_round :: poll_round where
  "quiet_round =
     \<lparr>refresh_raises = None, requery_raises = None, early_cancel = False,
      cancel_operation_raises = None, close_operation_raises = None, close_raises = None,
      get_log_result = Inr None, commit_raises = None,
      status_result = Inr ''RUNNING_STATE''\<rparr>"

definition progress_log :: string where
  "progress_log = ''Query 5543ffdf692b7d02:f78a944000000000: 3% Complete (17 out of 547)''"

definition progress_round :: poll_round where
  "progress_round = quiet_round\<lparr>get_log_result := Inr (Some progress_log)\<rparr>"

definition entry_state :: poll_state where
  "entry_state = \<lparr>progress = None, query_progress = 0, stored_progress = 0, trace = [Status]\<rparr>"




text \<open>
  An environment with one feature-flag variable (and one whose name ends with the prefix), and
  a reading of boolean strings.
\<close>

definition example_environ :: "(string \<times> string) list" where
  "example_environ =
     [(''PATH'', ''/usr/bin''),
      (''SUPERSET_FEATURE_ALERT_REPORTS'', ''true''),
      (''SUPERSET_FEATURE_'', ''true'')]"

definition example_parse_boolean_string :: "string \<Rightarrow> bool" where
  "example_parse_boolean_string v = (v \<in> set [''y'', ''yes'', ''t'', ''true'', ''on'', ''1''])"

text \<open>
  A deployment override that defines an upper-case name, a lower-case name and an upper-case
  name with a leading underscore; a config namespace with one default; an environment that
  names the override by \<open>SUPERSET_CONFIG_PATH\<close>, and one in which \<open>superset_config\<close> is found on
  the path instead.
\<close>

definition example_override :: pymodule where
  "example_override =
     \<lparr>attributes = [(''ROW_LIMIT'', PyInt 5), (''row_limit'', PyInt 7),
                    (''_SECRET_TOKEN'', PyStr ''s3cret'')],
      dunder_all = None\<rparr>"

definition example_defaults :: "string \<Rightarrow> pyval option" where
  "example_defaults = map_of [(''ROW_LIMIT'', PyInt 50000)]"

definition path_env :: import_env where
  "path_env =
     \<lparr>os_environ = [(''SUPERSET_CONFIG_PATH'', ''/app/pythonpath/superset_config.py'')],
      exec_config_file = (\<lambda>path. Inr example_override),
      import_superset_config = None\<rparr>"

definition module_env :: import_env where
  "module_env =
     \<lparr>os_environ = [(''PATH'', ''/usr/bin'')],
      exec_config_file = (\<lambda>path. Inl (RaisedError ''FileNotFoundError'')),
      import_superset_config = Some (Inr example_override)\<rparr>"




text \<open>
  Two deployments with the feature-flag variable of \<open>example_environ\<close> and
  \<open>SUPERSET_CONFIG_PATH\<close> set: the override of the first is \<open>example_override\<close>, the override of
  the second assigns \<open>DEFAULT_FEATURE_FLAGS\<close> a dict of its own.
\<close>

definition flags_env :: import_env where
  "flags_env =
     \<lparr>os_environ =
        example_environ @ [(''SUPERSET_CONFIG_PATH'', ''/app/pythonpath/superset_config.py'')],
      exec_config_file = (\<lambda>path. Inr example_override),
      import_superset_config = None\<rparr>"

definition flags_override :: pymodule where
  "flags_override =
     \<lparr>attributes = [(''DEFAULT_FEATURE_FLAGS'', PyDict [(''DRILL_BY'', PyBool False)])],
      dunder_all = None\<rparr>"

definition flags_override_env :: import_env where
  "flags_override_env = flags_env\<lparr>exec_config_file := (\<lambda>path. Inr flags_override)\<rparr>"

section \<open>Facts about the matcher\<close>

lemma first_match_None_iff: "(first_match ms = None) = (ms = [])"
  by (cases ms) auto

lemma first_match_SomeD: "first_match ms = Some g \<Longrightarrow> \<exists>pos s. (pos, s, g) \<in> set ms"
  by (induction ms rule: first_match.induct) auto

lemma search_from_None_iff:
  "(search_from r pos s = None) = (\<forall>i\<le>length s. rmatch r (pos + i, drop i s, []) = [])"
proof (induction s arbitrary: pos)
  case Nil
  show ?case by (simp add: first_match_None_iff)
next
  case (Cons c s)
  have "(\<forall>i\<le>length (c # s). rmatch r (pos + i, drop i (c # s), []) = []) =
        (rmatch r (pos, c # s, []) = [] \<and> (\<forall>i\<le>length s. rmatch r (Suc pos + i, drop i s, []) = []))"
    (is "?L = ?R")
  proof
    assume l: ?L
    from l [rule_format, of 0] have "rmatch r (pos, c # s, []) = []" by simp
    moreover have "rmatch r (Suc pos + i, drop i s, []) = []" if "i \<le> length s" for i
      using l [rule_format, of "Suc i"] that by simp
    ultimately show ?R by blast
  next
    assume r: ?R
    show ?L
    proof (intro allI impI)
      fix i assume "i \<le> length (c # s)"
      then show "rmatch r (pos + i, drop i (c # s), []) = []"
        using r by (cases i) auto
    qed
  qed
  then show ?case
    using Cons.IH [of "Suc pos"] by (auto simp: first_match_None_iff split: option.splits)
qed

lemma search_from_SomeD:
  "search_from r pos s = Some g \<Longrightarrow>
     \<exists>i\<le>length s. \<exists>pos' s'. (pos', s', g) \<in> set (rmatch r (pos + i, drop i s, []))"
proof (induction s arbitrary: pos)
  case Nil
  then show ?case by (auto dest: first_match_SomeD)
next
  case (Cons c s)
  show ?case
  proof (cases "first_match (rmatch r (pos, c # s, []))")
    case None
    with Cons.prems have "search_from r (Suc pos) s = Some g" by simp
    from Cons.IH [OF this] obtain i pos' s' where
      "i \<le> length s" "(pos', s', g) \<in> set (rmatch r (Suc pos + i, drop i s, []))" by blast
    then have "Suc i \<le> length (c # s)"
      "(pos', s', g) \<in> set (rmatch r (pos + Suc i, drop (Suc i) (c # s), []))" by auto
    then show ?thesis by blast
  next
    case (Some g')
    with Cons.prems have "g' = g" by simp
    with Some obtain pos' s' where "(pos', s', g) \<in> set (rmatch r (pos, c # s, []))"
      by (auto dest: first_match_SomeD)
    then have "(pos', s', g) \<in> set (rmatch r (pos + 0, drop 0 (c # s), []))" by simp
    then show ?thesis by blast
  qed
qed

lemma sublist_iff_prefix_drop: "sublist l s = (\<exists>i\<le>length s. prefix l (drop i s))"
proof
  assume "sublist l s"
  then obtain ps ss where "s = ps @ l @ ss" by (auto simp: sublist_def)
  then have "length ps \<le> length s" "prefix l (drop (length ps) s)" by auto
  then show "\<exists>i\<le>length s. prefix l (drop i s)" by blast
next
  assume "\<exists>i\<le>length s. prefix l (drop i s)"
  then obtain i ss where "drop i s = l @ ss" by (auto simp: prefix_def)
  then have "s = take i s @ l @ ss" by (metis append_take_drop_id)
  then show "sublist l s" by (auto simp: sublist_def)
qed

lemma re_search_Lit: "(re_search (Lit l) s \<noteq> None) = sublist l s"
proof -
  have "(\<forall>i\<le>length s. rmatch (Lit l) (0 + i, drop i s, []) = []) =
        (\<not> (\<exists>i\<le>length s. prefix l (drop i s)))"
    by auto
  then show ?thesis
    unfolding re_search_def search_from_None_iff sublist_iff_prefix_drop by blast
qed

lemma set_repeat_counts: "set (repeat_counts lo n greedy) = {k. lo \<le> k \<and> k \<le> n}"
  by (auto simp: repeat_counts_def)

lemma rmatch_Repeat_mem:
  "((pos', s', g') \<in> set (rmatch (Repeat cls lo greedy) (pos, s, g))) =
     (\<exists>k. lo \<le> k \<and> k \<le> length (takeWhile (in_class cls) s)
          \<and> pos' = pos + k \<and> s' = drop k s \<and> g' = g)"
  by (auto simp: set_repeat_counts)

lemma le_length_takeWhile_iff:
  "(k \<le> length (takeWhile P s)) = (k \<le> length s \<and> (\<forall>c\<in>set (take k s). P c))"
proof (induction s arbitrary: k)
  case Nil
  show ?case by simp
next
  case (Cons a s)
  show ?case by (cases k) (auto simp: Cons.IH)
qed

lemma prefix_append_no_hd:
  assumes "prefix l (xs @ ys)" and "ys = [] \<or> hd ys \<notin> set l"
  shows "prefix l xs"
proof -
  from assms(1) consider "prefix l xs" | us where "l = xs @ us" "prefix us ys"
    by (auto simp: prefix_append)
  then show ?thesis
  proof cases
    case 1
    then show ?thesis .
  next
    case 2
    show ?thesis
    proof (cases us)
      case Nil
      with 2 show ?thesis by simp
    next
      case (Cons u us')
      with 2 have "ys \<noteq> []" "hd ys = u" by (auto simp: prefix_def)
      with assms(2) 2 Cons show ?thesis by auto
    qed
  qed
qed

lemma dropWhile_nil_or_hd: "dropWhile P s = [] \<or> \<not> P (hd (dropWhile P s))"
  by (metis hd_dropWhile)

lemma rmatch_Seq_nonempty:
  "(rmatch (Seq r1 r2) st \<noteq> []) = (\<exists>m\<in>set (rmatch r1 st). rmatch r2 m \<noteq> [])"
  by auto

lemma rmatch_AnyStar_Lit_nonempty:
  assumes "newline \<notin> set l"
  shows "(rmatch (Seq (Repeat AnyChar 0 gr) (Lit l)) (pos, s, g) \<noteq> []) =
           sublist l (takeWhile (\<lambda>c. c \<noteq> newline) s)"
proof -
  let ?tw = "takeWhile (\<lambda>c. c \<noteq> newline) s" and ?dw = "dropWhile (\<lambda>c. c \<noteq> newline) s"
  have cls: "in_class AnyChar = (\<lambda>c. c \<noteq> newline)" by (rule ext) simp
  have s: "s = ?tw @ ?dw" by simp
  have hd: "?dw = [] \<or> hd ?dw \<notin> set l"
    using dropWhile_nil_or_hd [of "\<lambda>c. c \<noteq> newline" s] assms by auto
  have pre: "prefix l (drop k s) = prefix l (drop k ?tw)" if "k \<le> length ?tw" for k
  proof
    assume "prefix l (drop k s)"
    moreover have "drop k s = drop k ?tw @ ?dw"
      using that by (metis drop_append s diff_is_0_eq drop0)
    ultimately show "prefix l (drop k ?tw)"
      using prefix_append_no_hd [of l "drop k ?tw" ?dw] hd by simp
  next
    assume "prefix l (drop k ?tw)"
    then obtain ss where "drop k ?tw = l @ ss" by (auto simp: prefix_def)
    moreover have "drop k s = drop k ?tw @ ?dw"
      using that by (metis drop_append s diff_is_0_eq drop0)
    ultimately show "prefix l (drop k s)" by (simp add: prefix_def)
  qed
  have "(rmatch (Seq (Repeat AnyChar 0 gr) (Lit l)) (pos, s, g) \<noteq> []) =
        (\<exists>k\<le>length ?tw. prefix l (drop k s))"
    unfolding rmatch_Seq_nonempty by (auto simp: set_repeat_counts cls)
  also have "\<dots> = (\<exists>k\<le>length ?tw. prefix l (drop k ?tw))"
    using pre by blast
  also have "\<dots> = sublist l ?tw"
    by (simp add: sublist_iff_prefix_drop)
  finally show ?thesis .
qed

lemma rmatch_AnyStar_End_nonempty:
  "(rmatch (Seq (Repeat AnyChar 0 gr) EndAnchor) (pos, s, g) \<noteq> []) =
     (dropWhile (\<lambda>c. c \<noteq> newline) s = [] \<or> dropWhile (\<lambda>c. c \<noteq> newline) s = [newline])"
proof -
  let ?tw = "takeWhile (\<lambda>c. c \<noteq> newline) s" and ?dw = "dropWhile (\<lambda>c. c \<noteq> newline) s"
  have cls: "in_class AnyChar = (\<lambda>c. c \<noteq> newline)" by (rule ext) simp
  have s: "s = ?tw @ ?dw" by simp
  have split: "drop k s = drop k ?tw @ ?dw" if "k \<le> length ?tw" for k
    using that by (metis drop_append s diff_is_0_eq drop0)
  have tw: "newline \<notin> set (drop k ?tw)" for k
    by (auto dest!: in_set_dropD dest: set_takeWhileD)
  have "(rmatch (Seq (Repeat AnyChar 0 gr) EndAnchor) (pos, s, g) \<noteq> []) =
        (\<exists>k\<le>length ?tw. drop k s = [] \<or> drop k s = [newline])"
    unfolding rmatch_Seq_nonempty by (auto simp: set_repeat_counts cls)
  also have "\<dots> = (?dw = [] \<or> ?dw = [newline])"
  proof
    assume "\<exists>k\<le>length ?tw. drop k s = [] \<or> drop k s = [newline]"
    then obtain k where k1: "k \<le> length ?tw" and k2: "drop k s = [] \<or> drop k s = [newline]"
      by blast
    from k2 have "drop k ?tw @ ?dw = [] \<or> drop k ?tw @ ?dw = [newline]"
      using split [OF k1] by metis
    then show "?dw = [] \<or> ?dw = [newline]"
    proof
      assume "drop k ?tw @ ?dw = []"
      then show ?thesis by simp
    next
      assume e: "drop k ?tw @ ?dw = [newline]"
      show ?thesis
      proof (cases "drop k ?tw")
        case Nil
        with e show ?thesis by simp
      next
        case (Cons a as)
        with e have "a = newline" by simp
        with Cons tw [of k] show ?thesis by simp
      qed
    qed
  next
    assume "?dw = [] \<or> ?dw = [newline]"
    moreover have "drop (length ?tw) s = ?dw" using split [of "length ?tw"] by simp
    ultimately show "\<exists>k\<le>length ?tw. drop k s = [] \<or> drop k s = [newline]"
      by (intro exI [of _ "length ?tw"]) simp
  qed
  finally show ?thesis .
qed

lemma rmatch_hostname_tail_nonempty:
  assumes "newline \<notin> set l"
  shows "(rmatch (Seq (Lit c)
            (Seq (NegLookahead (Seq (Repeat AnyChar 0 True) (Lit l)))
            (Seq (Repeat AnyChar 0 True) EndAnchor))) (pos, s, g) \<noteq> []) =
         (\<exists>post. s = c @ post
            \<and> \<not> sublist l (takeWhile (\<lambda>c. c \<noteq> newline) post)
            \<and> (dropWhile (\<lambda>c. c \<noteq> newline) post = []
                 \<or> dropWhile (\<lambda>c. c \<noteq> newline) post = [newline]))"
proof -
  have la: "(rmatch (NegLookahead (Seq (Repeat AnyChar 0 True) (Lit l))) (p, t, g) \<noteq> []) =
              (\<not> sublist l (takeWhile (\<lambda>c. c \<noteq> newline) t))" for p t
    using rmatch_AnyStar_Lit_nonempty [OF assms, of True p t g] by auto
  have la_set: "set (rmatch (NegLookahead (Seq (Repeat AnyChar 0 True) (Lit l))) (p, t, g))
                  \<subseteq> {(p, t, g)}" for p t
    by auto
  have inner: "(rmatch (Seq (NegLookahead (Seq (Repeat AnyChar 0 True) (Lit l)))
                  (Seq (Repeat AnyChar 0 True) EndAnchor)) (p, t, g) \<noteq> []) =
               (\<not> sublist l (takeWhile (\<lambda>c. c \<noteq> newline) t)
                \<and> (dropWhile (\<lambda>c. c \<noteq> newline) t = []
                     \<or> dropWhile (\<lambda>c. c \<noteq> newline) t = [newline]))" for p t
  proof (cases "rmatch (NegLookahead (Seq (Repeat AnyChar 0 True) (Lit l))) (p, t, g) = []")
    case True
    with la [of p t] show ?thesis by (simp del: rmatch.simps(6))
  next
    case False
    then have "rmatch (NegLookahead (Seq (Repeat AnyChar 0 True) (Lit l))) (p, t, g) = [(p, t, g)]"
      by (auto split: if_splits)
    with la [of p t] False rmatch_AnyStar_End_nonempty [of True p t g] show ?thesis
      by (simp del: rmatch.simps(6) rmatch.simps(4))
  qed
  show ?thesis
  proof (cases "prefix c s")
    case True
    then obtain post where post: "s = c @ post" by (auto simp: prefix_def)
    have "rmatch (Seq (Lit c)
            (Seq (NegLookahead (Seq (Repeat AnyChar 0 True) (Lit l)))
            (Seq (Repeat AnyChar 0 True) EndAnchor))) (pos, s, g) =
          rmatch (Seq (NegLookahead (Seq (Repeat AnyChar 0 True) (Lit l)))
            (Seq (Repeat AnyChar 0 True) EndAnchor)) (pos + length c, post, g)"
      using post by simp
    with inner [of "pos + length c" post] post show ?thesis by auto
  next
    case False
    then show ?thesis by (auto simp: prefix_def)
  qed
qed

lemma rmatch_hostname_tail_groups:
  "(pos', s', g') \<in> set (rmatch (Seq (Lit c)
            (Seq (NegLookahead la)
            (Seq (Repeat AnyChar 0 True) EndAnchor))) (pos, s, g)) \<Longrightarrow> g' = g"
  by (auto simp: set_repeat_counts split: if_splits)

lemma rmatch_Seq_mem:
  "(m' \<in> set (rmatch (Seq r1 r2) st)) = (\<exists>m\<in>set (rmatch r1 st). m' \<in> set (rmatch r2 m))"
  by auto

lemma rmatch_lazy_group_mem:
  "(m \<in> set (rmatch (Group name (Repeat AnyChar 0 False)) (pos, s, g))) =
     (\<exists>k\<le>length s. newline \<notin> set (take k s) \<and> m = (pos + k, drop k s, (name, take k s) # g))"
proof -
  have cls: "in_class AnyChar = (\<lambda>c. c \<noteq> newline)" by (rule ext) simp
  have "(m \<in> set (rmatch (Group name (Repeat AnyChar 0 False)) (pos, s, g))) =
        (\<exists>k\<le>length (takeWhile (\<lambda>c. c \<noteq> newline) s).
            m = (pos + k, drop k s, (name, take k s) # g))"
    by (auto simp: set_repeat_counts cls image_iff)
  also have "\<dots> = (\<exists>k\<le>length s. newline \<notin> set (take k s)
                    \<and> m = (pos + k, drop k s, (name, take k s) # g))"
    unfolding le_length_takeWhile_iff by auto
  finally show ?thesis .
qed

lemma hostname_rmatch_mem:
  assumes "(pos', s', g') \<in> set (rmatch CONNECTION_INVALID_HOSTNAME_REGEX (pos, t, []))"
  shows "\<exists>h post. t = ''Adaptive Server is unavailable or does not exist ('' @ h @ '')'' @ post
           \<and> newline \<notin> set h \<and> last_line_without ''Net-Lib error'' post
           \<and> g' = [(''hostname'', h)]"
proof -
  let ?A = "''Adaptive Server is unavailable or does not exist (''"
  let ?TAIL = "Seq (Lit '')'')
       (Seq (NegLookahead (Seq (Repeat AnyChar 0 True) (Lit ''Net-Lib error'')))
       (Seq (Repeat AnyChar 0 True) EndAnchor))"
  let ?G = "Group ''hostname'' (Repeat AnyChar 0 False)"
  have nl: "newline \<notin> set ''Net-Lib error''" by (simp add: newline_def)
  from assms obtain m1 m2 where
    m1: "m1 \<in> set (rmatch (Lit ?A) (pos, t, []))" and
    m2: "m2 \<in> set (rmatch ?G m1)" and
    m3: "(pos', s', g') \<in> set (rmatch ?TAIL m2)"
    unfolding CONNECTION_INVALID_HOSTNAME_REGEX_def rmatch_Seq_mem by blast
  from m1 obtain rest where t: "t = ?A @ rest" and m1_eq: "m1 = (pos + length ?A, rest, [])"
    by (auto simp: prefix_def split: if_splits)
  from m2 obtain k where k: "k \<le> length rest" "newline \<notin> set (take k rest)"
    and m2_eq: "m2 = (pos + length ?A + k, drop k rest, [(''hostname'', take k rest)])"
    unfolding m1_eq rmatch_lazy_group_mem by blast
  from m3 have g': "g' = [(''hostname'', take k rest)]"
    unfolding m2_eq by (rule rmatch_hostname_tail_groups)
  from m3 have "rmatch ?TAIL (pos + length ?A + k, drop k rest, [(''hostname'', take k rest)]) \<noteq> []"
    unfolding m2_eq by (metis empty_iff empty_set)
  then obtain post where post: "drop k rest = '')'' @ post"
    "last_line_without ''Net-Lib error'' post"
    unfolding rmatch_hostname_tail_nonempty [OF nl] last_line_without_def by blast
  have "rest = take k rest @ '')'' @ post"
    using post(1) by (metis append_take_drop_id)
  with t have "t = ?A @ take k rest @ '')'' @ post" by simp
  with k(2) post(2) g' show ?thesis by blast
qed

lemma hostname_rmatch_nonempty:
  assumes "newline \<notin> set h" and "last_line_without ''Net-Lib error'' post"
  shows "rmatch CONNECTION_INVALID_HOSTNAME_REGEX
           (pos, ''Adaptive Server is unavailable or does not exist ('' @ h @ '')'' @ post, [])
         \<noteq> []"
proof -
  let ?A = "''Adaptive Server is unavailable or does not exist (''"
  let ?TAIL = "Seq (Lit '')'')
       (Seq (NegLookahead (Seq (Repeat AnyChar 0 True) (Lit ''Net-Lib error'')))
       (Seq (Repeat AnyChar 0 True) EndAnchor))"
  let ?G = "Group ''hostname'' (Repeat AnyChar 0 False)"
  let ?rest = "h @ '')'' @ post"
  have nl: "newline \<notin> set ''Net-Lib error''" by (simp add: newline_def)
  have m1: "(pos + length ?A, ?rest, []) \<in> set (rmatch (Lit ?A) (pos, ?A @ ?rest, []))"
    by simp
  have "length h \<le> length ?rest \<and> newline \<notin> set (take (length h) ?rest)
        \<and> (pos + length ?A + length h, '')'' @ post, [(''hostname'', h)]) =
            (pos + length ?A + length h, drop (length h) ?rest,
             [(''hostname'', take (length h) ?rest)])"
    using assms(1) by simp
  then have m2: "(pos + length ?A + length h, '')'' @ post, [(''hostname'', h)])
               \<in> set (rmatch ?G (pos + length ?A, ?rest, []))"
    unfolding rmatch_lazy_group_mem by blast
  have "rmatch ?TAIL (pos + length ?A + length h, '')'' @ post, [(''hostname'', h)]) \<noteq> []"
    unfolding rmatch_hostname_tail_nonempty [OF nl]
    using assms(2) by (auto simp: last_line_without_def)
  then obtain m3 where
    "m3 \<in> set (rmatch ?TAIL (pos + length ?A + length h, '')'' @ post, [(''hostname'', h)]))"
    by (meson last_in_set)
  with m1 m2 have "m3 \<in> set (rmatch CONNECTION_INVALID_HOSTNAME_REGEX (pos, ?A @ ?rest, []))"
    unfolding CONNECTION_INVALID_HOSTNAME_REGEX_def rmatch_Seq_mem by blast
  then show ?thesis by auto
qed

lemma re_search_hostname_Some:
  assumes "re_search CONNECTION_INVALID_HOSTNAME_REGEX msg = Some g"
  shows "\<exists>pre h post.
           msg = pre @ ''Adaptive Server is unavailable or does not exist ('' @ h @ '')'' @ post
           \<and> newline \<notin> set h \<and> last_line_without ''Net-Lib error'' post
           \<and> g = [(''hostname'', h)]"
proof -
  from assms obtain i pos' s' where
    "(pos', s', g) \<in> set (rmatch CONNECTION_INVALID_HOSTNAME_REGEX (0 + i, drop i msg, []))"
    unfolding re_search_def by (blast dest: search_from_SomeD)
  from hostname_rmatch_mem [OF this] obtain h post where
    d: "drop i msg = ''Adaptive Server is unavailable or does not exist ('' @ h @ '')'' @ post"
    and r: "newline \<notin> set h" "last_line_without ''Net-Lib error'' post" "g = [(''hostname'', h)]"
    by blast
  from d have "msg = take i msg @ ''Adaptive Server is unavailable or does not exist ('' @ h @ '')'' @ post"
    by (metis append_take_drop_id)
  with r show ?thesis by blast
qed

lemma re_search_hostname_iff:
  "(re_search CONNECTION_INVALID_HOSTNAME_REGEX msg \<noteq> None) =
     (\<exists>pre h post.
        msg = pre @ ''Adaptive Server is unavailable or does not exist ('' @ h @ '')'' @ post
        \<and> newline \<notin> set h \<and> last_line_without ''Net-Lib error'' post)"
proof
  assume "re_search CONNECTION_INVALID_HOSTNAME_REGEX msg \<noteq> None"
  then obtain g where "re_search CONNECTION_INVALID_HOSTNAME_REGEX msg = Some g" by blast
  from re_search_hostname_Some [OF this] show "\<exists>pre h post.
        msg = pre @ ''Adaptive Server is unavailable or does not exist ('' @ h @ '')'' @ post
        \<and> newline \<notin> set h \<and> last_line_without ''Net-Lib error'' post" by blast
next
  assume "\<exists>pre h post.
        msg = pre @ ''Adaptive Server is unavailable or does not exist ('' @ h @ '')'' @ post
        \<and> newline \<notin> set h \<and> last_line_without ''Net-Lib error'' post"
  then obtain pre h post where
    msg: "msg = pre @ ''Adaptive Server is unavailable or does not exist ('' @ h @ '')'' @ post"
    and r: "newline \<notin> set h" "last_line_without ''Net-Lib error'' post" by blast
  have "length pre \<le> length msg" using msg by simp
  moreover have "rmatch CONNECTION_INVALID_HOSTNAME_REGEX
      (0 + length pre, drop (length pre) msg, []) \<noteq> []"
    using hostname_rmatch_nonempty [OF r, of "0 + length pre"] msg by simp
  ultimately show "re_search CONNECTION_INVALID_HOSTNAME_REGEX msg \<noteq> None"
    unfolding re_search_def search_from_None_iff by blast
qed

section \<open>The engine specs\<close>

subsection \<open>Time-grain tables\<close>

lemma impala_time_grain_keys:
  "map fst impala_time_grain_expressions =
     [None, Some MINUTE, Some HOUR, Some DAY, Some WEEK, Some MONTH, Some QUARTER, Some YEAR]"
  by (simp add: impala_time_grain_expressions_def)

lemma mssql_time_grain_keys:
  "map fst mssql_time_grain_expressions =
     [None, Some SECOND, Some MINUTE, Some FIVE_MINUTES, Some TEN_MINUTES, Some FIFTEEN_MINUTES,
      Some THIRTY_MINUTES, Some HOUR, Some DAY, Some WEEK, Some MONTH, Some QUARTER, Some YEAR,
      Some WEEK_STARTING_SUNDAY, Some WEEK_STARTING_MONDAY]"
  by (simp add: mssql_time_grain_expressions_def)

text \<open>
  C2. The expression template of a grain is the entry of the engine's table, a function of the
  engine spec and the grain alone. For Impala the table has exactly the eight entries listed;
  for SQL Server exactly the fifteen entries listed, and every entry for a named grain is built
  from \<open>DATEADD(\<close> and \<open>DATEDIFF(\<close>. A grain outside the table has no template.
\<close>

theorem time_grain_expression_table:
  "time_grain_expression ImpalaEngineSpec None = Some ''{col}''
   \<and> time_grain_expression ImpalaEngineSpec (Some MINUTE) = Some ''TRUNC({col}, 'MI')''
   \<and> time_grain_expression ImpalaEngineSpec (Some HOUR) = Some ''TRUNC({col}, 'HH')''
   \<and> time_grain_expression ImpalaEngineSpec (Some DAY) = Some ''TRUNC({col}, 'DD')''
   \<and> time_grain_expression ImpalaEngineSpec (Some WEEK) = Some ''TRUNC({col}, 'WW')''
   \<and> time_grain_expression ImpalaEngineSpec (Some MONTH) = Some ''TRUNC({col}, 'MONTH')''
   \<and> time_grain_expression ImpalaEngineSpec (Some QUARTER) = Some ''TRUNC({col}, 'Q')''
   \<and> time_grain_expression ImpalaEngineSpec (Some YEAR) = Some ''TRUNC({col}, 'YYYY')''
   \<and> (\<forall>g. (time_grain_expression ImpalaEngineSpec g \<noteq> None) =
         (g \<in> {None, Some MINUTE, Some HOUR, Some DAY, Some WEEK, Some MONTH, Some QUARTER,
                Some YEAR}))
   \<and> time_grain_expression MssqlEngineSpec None = Some ''{col}''
   \<and> time_grain_expression MssqlEngineSpec (Some SECOND) = Some
        ''DATEADD(SECOND,             DATEDIFF(SECOND, '2000-01-01', {col}), '2000-01-01')''
   \<and> time_grain_expression MssqlEngineSpec (Some MINUTE) = Some
        ''DATEADD(MINUTE, DATEDIFF(MINUTE, 0, {col}), 0)''
   \<and> time_grain_expression MssqlEngineSpec (Some FIVE_MINUTES) = Some
        ''DATEADD(MINUTE,             DATEDIFF(MINUTE, 0, {col}) / 5 * 5, 0)''
   \<and> time_grain_expression MssqlEngineSpec (Some TEN_MINUTES) = Some
        ''DATEADD(MINUTE,             DATEDIFF(MINUTE, 0, {col}) / 10 * 10, 0)''
   \<and> time_grain_expression MssqlEngineSpec (Some FIFTEEN_MINUTES) = Some
        ''DATEADD(MINUTE,             DATEDIFF(MINUTE, 0, {col}) / 15 * 15, 0)''
   \<and> time_grain_expression MssqlEngineSpec (Some THIRTY_MINUTES) = Some
        ''DATEADD(MINUTE,             DATEDIFF(MINUTE, 0, {col}) / 30 * 30, 0)''
   \<and> time_grain_expression MssqlEngineSpec (Some HOUR) = Some
        ''DATEADD(HOUR, DATEDIFF(HOUR, 0, {col}), 0)''
   \<and> time_grain_expression MssqlEngineSpec (Some DAY) = Some
        ''DATEADD(DAY, DATEDIFF(DAY, 0, {col}), 0)''
   \<and> time_grain_expression MssqlEngineSpec (Some WEEK) = Some
        ''DATEADD(DAY, 1 - DATEPART(WEEKDAY, {col}), DATEADD(DAY, DATEDIFF(DAY, 0, {col}), 0))''
   \<and> time_grain_expression MssqlEngineSpec (Some MONTH) = Some
        ''DATEADD(MONTH, DATEDIFF(MONTH, 0, {col}), 0)''
   \<and> time_grain_expression MssqlEngineSpec (Some QUARTER) = Some
        ''DATEADD(QUARTER, DATEDIFF(QUARTER, 0, {col}), 0)''
   \<and> time_grain_expression MssqlEngineSpec (Some YEAR) = Some
        ''DATEADD(YEAR, DATEDIFF(YEAR, 0, {col}), 0)''
   \<and> time_grain_expression MssqlEngineSpec (Some WEEK_STARTING_SUNDAY) = Some
        ''DATEADD(DAY, -1, DATEADD(WEEK, DATEDIFF(WEEK, 0, {col}), 0))''
   \<and> time_grain_expression MssqlEngineSpec (Some WEEK_STARTING_MONDAY) = Some
        ''DATEADD(WEEK, DATEDIFF(WEEK, 0, DATEADD(DAY, -1, {col})), 0)''
   \<and> (\<forall>g. (time_grain_expression MssqlEngineSpec g \<noteq> None) =
         (g \<in> {None, Some SECOND, Some MINUTE, Some FIVE_MINUTES, Some TEN_MINUTES,
                Some FIFTEEN_MINUTES, Some THIRTY_MINUTES, Some HOUR, Some DAY, Some WEEK,
                Some MONTH, Some QUARTER, Some YEAR, Some WEEK_STARTING_SUNDAY,
                Some WEEK_STARTING_MONDAY}))
   \<and> list_all (\<lambda>(g, t). g = None \<or> (sublist ''DATEADD('' t \<and> sublist ''DATEDIFF('' t))
        (time_grain_expressions MssqlEngineSpec)"
proof -
  have dom_eq: "(map_of xs g \<noteq> None) = (g \<in> set (map fst xs))"
    for xs :: "(TimeGrain option \<times> string) list" and g
    by (simp add: map_of_eq_None_iff)
  have impala: "(time_grain_expression ImpalaEngineSpec g \<noteq> None) =
         (g \<in> {None, Some MINUTE, Some HOUR, Some DAY, Some WEEK, Some MONTH, Some QUARTER,
                Some YEAR})" for g
    unfolding time_grain_expression_def time_grain_expressions.simps dom_eq
      impala_time_grain_keys by auto
  have mssql: "(time_grain_expression MssqlEngineSpec g \<noteq> None) =
         (g \<in> {None, Some SECOND, Some MINUTE, Some FIVE_MINUTES, Some TEN_MINUTES,
                Some FIFTEEN_MINUTES, Some THIRTY_MINUTES, Some HOUR, Some DAY, Some WEEK,
                Some MONTH, Some QUARTER, Some YEAR, Some WEEK_STARTING_SUNDAY,
                Some WEEK_STARTING_MONDAY})" for g
    unfolding time_grain_expression_def time_grain_expressions.simps dom_eq
      mssql_time_grain_keys by auto
  have built: "list_all (\<lambda>(g, t). g = None \<or> (sublist ''DATEADD('' t \<and> sublist ''DATEDIFF('' t))
        (time_grain_expressions MssqlEngineSpec)"
    unfolding time_grain_expressions.simps mssql_time_grain_expressions_def by code_simp
  show ?thesis
    unfolding time_grain_expression_def
    apply (intro conjI allI)
    apply (simp_all only: impala mssql built
        impala [unfolded time_grain_expression_def] mssql [unfolded time_grain_expression_def])
    apply (simp_all add: impala_time_grain_expressions_def mssql_time_grain_expressions_def)
    done
qed

subsection \<open>Cancelling an Impala query\<close>








subsection \<open>Error messages of SQL Server\<close>

text \<open>
  C6. For every exception, \<open>extract_error_message\<close> of \<open>MssqlEngineSpec\<close> (and of its subclass
  \<open>AzureSynapseSpec\<close>) returns \<open>mssql error: \<close> followed by the fixed advice on aliases when
  \<open>str\<close> of the exception starts with \<open>(8155,\<close>, and by the message the inherited
  \<open>_extract_error_message\<close> extracts otherwise.
\<close>

theorem extract_error_message_mssql:
  "extract_error_message MssqlEngineSpec str_of base_extract_error_message ex =
     ''mssql error: '' @
       (if prefix ''(8155,'' (str_of ex)
        then ''All your SQL functions need to have an alias on MSSQL. For example: SELECT COUNT(*) AS C1 FROM TABLE1''
        else base_extract_error_message ex)
   \<and> extract_error_message AzureSynapseSpec str_of base_extract_error_message ex =
       extract_error_message MssqlEngineSpec str_of base_extract_error_message ex
   \<and> prefix ''mssql error: ''
       (extract_error_message MssqlEngineSpec str_of base_extract_error_message ex)"
  by (simp add: extract_error_message_def)

subsection \<open>The error patterns of SQL Server\<close>

text \<open>
  What the four patterns of \<open>custom_errors\<close> find, for every message. The three literal patterns
  are found exactly in the messages that contain their text.
  \<open>CONNECTION_INVALID_HOSTNAME_REGEX\<close> is found exactly when the message contains
  \<open>Adaptive Server is unavailable or does not exist (h)\<close> for some \<open>h\<close> on one line and the rest
  of the message is the end of that line, without \<open>Net-Lib error\<close>; the group \<open>hostname\<close> is
  such an \<open>h\<close>, which may itself contain a closing parenthesis.
\<close>

lemma mssql_patterns_found:
  "((re_search CONNECTION_ACCESS_DENIED_REGEX message \<noteq> None) =
      sublist ''Adaptive Server connection failed'' message)
   \<and> ((re_search CONNECTION_INVALID_HOSTNAME_REGEX message \<noteq> None) =
        (\<exists>pre h post.
           message = pre @ ''Adaptive Server is unavailable or does not exist ('' @ h @ '')'' @ post
           \<and> newline \<notin> set h \<and> last_line_without ''Net-Lib error'' post))
   \<and> (\<forall>groups. re_search CONNECTION_INVALID_HOSTNAME_REGEX message = Some groups \<longrightarrow>
        (\<exists>pre h post.
           message = pre @ ''Adaptive Server is unavailable or does not exist ('' @ h @ '')'' @ post
           \<and> newline \<notin> set h \<and> last_line_without ''Net-Lib error'' post
           \<and> groups = [(''hostname'', h)]))
   \<and> ((re_search CONNECTION_PORT_CLOSED_REGEX message \<noteq> None) =
        sublist ''Net-Lib error during Connection refused (61)'' message)
   \<and> ((re_search CONNECTION_HOST_DOWN_REGEX message \<noteq> None) =
        sublist ''Net-Lib error during Operation timed out (60)'' message)"
proof (intro conjI allI impI)
  show "(re_search CONNECTION_ACCESS_DENIED_REGEX message \<noteq> None) =
      sublist ''Adaptive Server connection failed'' message"
    unfolding CONNECTION_ACCESS_DENIED_REGEX_def by (rule re_search_Lit)
  show "(re_search CONNECTION_INVALID_HOSTNAME_REGEX message \<noteq> None) =
        (\<exists>pre h post.
           message = pre @ ''Adaptive Server is unavailable or does not exist ('' @ h @ '')'' @ post
           \<and> newline \<notin> set h \<and> last_line_without ''Net-Lib error'' post)"
    by (rule re_search_hostname_iff)
  show "(re_search CONNECTION_PORT_CLOSED_REGEX message \<noteq> None) =
        sublist ''Net-Lib error during Connection refused (61)'' message"
    unfolding CONNECTION_PORT_CLOSED_REGEX_def by (rule re_search_Lit)
  show "(re_search CONNECTION_HOST_DOWN_REGEX message \<noteq> None) =
        sublist ''Net-Lib error during Operation timed out (60)'' message"
    unfolding CONNECTION_HOST_DOWN_REGEX_def by (rule re_search_Lit)
next
  fix groups
  assume "re_search CONNECTION_INVALID_HOSTNAME_REGEX message = Some groups"
  then show "\<exists>pre h post.
           message = pre @ ''Adaptive Server is unavailable or does not exist ('' @ h @ '')'' @ post
           \<and> newline \<notin> set h \<and> last_line_without ''Net-Lib error'' post
           \<and> groups = [(''hostname'', h)]"
    by (rule re_search_hostname_Some)
qed

lemma hostname_pattern_examples:
  "re_search CONNECTION_INVALID_HOSTNAME_REGEX unknown_host_message =
     Some [(''hostname'', ''locahost'')]"
  "re_search CONNECTION_INVALID_HOSTNAME_REGEX port_closed_message = None"
  by code_simp+

text \<open>
  C3. The row of \<open>CONNECTION_INVALID_HOSTNAME_REGEX\<close> in \<open>custom_errors\<close> carries
  \<open>CONNECTION_INVALID_HOSTNAME_ERROR\<close>. In a message where \<open>Net-Lib error\<close> follows the host on
  the same line, the pattern is found all the same: the lazy group \<open>hostname\<close> runs on to the
  last closing parenthesis of the line, past the text that the lookahead was to exclude, and
  captures \<open>localhost) Net-Lib error during Connection refused (61\<close> as the hostname. In a
  message where the line on the host is followed by a line without \<open>Net-Lib error\<close>, the pattern
  is not found: \<open>.*$\<close> does not reach the end of the message across the newline.
\<close>

theorem hostname_pattern_overruns_lookahead:
  "map (\<lambda>(regex, template, error_type, extra). (regex, error_type)) custom_errors =
     [(CONNECTION_ACCESS_DENIED_REGEX, CONNECTION_ACCESS_DENIED_ERROR),
      (CONNECTION_INVALID_HOSTNAME_REGEX, CONNECTION_INVALID_HOSTNAME_ERROR),
      (CONNECTION_PORT_CLOSED_REGEX, CONNECTION_PORT_CLOSED_ERROR),
      (CONNECTION_HOST_DOWN_REGEX, CONNECTION_HOST_DOWN_ERROR)]
   \<and> same_line_message =
       ''Unable to connect: Adaptive Server is unavailable or does not exist (localhost) '' @
       ''Net-Lib error during Connection refused (61)''
   \<and> re_search CONNECTION_INVALID_HOSTNAME_REGEX same_line_message =
       Some [(''hostname'', ''localhost) Net-Lib error during Connection refused (61'')]
   \<and> further_lines_message =
       ''Unable to connect: Adaptive Server is unavailable or does not exist (locahost)'' @
       [newline] @ ''DB-Lib error message 20009, severity 9:'' @ [newline]
   \<and> \<not> sublist ''Net-Lib error'' further_lines_message
   \<and> re_search CONNECTION_INVALID_HOSTNAME_REGEX further_lines_message = None"
proof (intro conjI)
  show "map (\<lambda>(regex, template, error_type, extra). (regex, error_type)) custom_errors =
     [(CONNECTION_ACCESS_DENIED_REGEX, CONNECTION_ACCESS_DENIED_ERROR),
      (CONNECTION_INVALID_HOSTNAME_REGEX, CONNECTION_INVALID_HOSTNAME_ERROR),
      (CONNECTION_PORT_CLOSED_REGEX, CONNECTION_PORT_CLOSED_ERROR),
      (CONNECTION_HOST_DOWN_REGEX, CONNECTION_HOST_DOWN_ERROR)]"
    by (simp add: custom_errors_def)
  show "same_line_message =
       ''Unable to connect: Adaptive Server is unavailable or does not exist (localhost) '' @
       ''Net-Lib error during Connection refused (61)''"
    by (simp add: same_line_message_def)
  show "re_search CONNECTION_INVALID_HOSTNAME_REGEX same_line_message =
       Some [(''hostname'', ''localhost) Net-Lib error during Connection refused (61'')]"
    by code_simp
  show "further_lines_message =
       ''Unable to connect: Adaptive Server is unavailable or does not exist (locahost)'' @
       [newline] @ ''DB-Lib error message 20009, severity 9:'' @ [newline]"
    by (simp add: further_lines_message_def)
  show "\<not> sublist ''Net-Lib error'' further_lines_message"
    by code_simp
  show "re_search CONNECTION_INVALID_HOSTNAME_REGEX further_lines_message = None"
    by code_simp
qed

subsection \<open>Datetime literals of SQL Server\<close>

lemma example_dttm_isoformat:
  "date_isoformat example_dttm = ''2019-01-02''"
  "isoformat_seconds example_dttm = ''2019-01-02 03:04:05''"
  "isoformat_milliseconds example_dttm = ''2019-01-02T03:04:05.678''"
  by (simp_all add: date_isoformat_def isoformat_seconds_def isoformat_milliseconds_def
      time_to_seconds_def zero_padded_def decimal.simps digit_char_def example_dttm_def)

text \<open>
  C7. For every datetime and every target type, \<open>convert_dttm\<close> returns a value: the
  \<open>CONVERT(DATE, '...', 23)\<close> of the ISO date when the column type is a \<open>Date\<close>; otherwise the
  \<open>CONVERT(SMALLDATETIME, '...', 20)\<close> of the ISO datetime to seconds (separated by a space)
  when it is a \<open>SMALLDATETIME\<close>; otherwise the \<open>CONVERT(DATETIME, '...', 126)\<close> of the ISO
  datetime to milliseconds when it is a \<open>DateTime\<close>; and \<open>None\<close> when it is none of these or the
  type is not known.
\<close>

theorem convert_dttm_by_column_type:
  "(get_sqla_column_type target_type = Some t \<and> isinstance_Date t \<longrightarrow>
      convert_dttm get_sqla_column_type target_type dttm =
        Some (''CONVERT(DATE, '' @ apostrophe @ date_isoformat dttm @ apostrophe @ '', 23)''))
   \<and> (get_sqla_column_type target_type = Some t \<and> \<not> isinstance_Date t
        \<and> isinstance_SMALLDATETIME t \<longrightarrow>
      convert_dttm get_sqla_column_type target_type dttm =
        Some (''CONVERT(SMALLDATETIME, '' @ apostrophe @ isoformat_seconds dttm @ apostrophe @
              '', 20)''))
   \<and> (get_sqla_column_type target_type = Some t \<and> \<not> isinstance_Date t
        \<and> \<not> isinstance_SMALLDATETIME t \<and> isinstance_DateTime t \<longrightarrow>
      convert_dttm get_sqla_column_type target_type dttm =
        Some (''CONVERT(DATETIME, '' @ apostrophe @ isoformat_milliseconds dttm @ apostrophe @
              '', 126)''))
   \<and> (get_sqla_column_type target_type = Some t \<and> \<not> isinstance_Date t
        \<and> \<not> isinstance_SMALLDATETIME t \<and> \<not> isinstance_DateTime t \<longrightarrow>
      convert_dttm get_sqla_column_type target_type dttm = None)
   \<and> (get_sqla_column_type target_type = None \<longrightarrow>
      convert_dttm get_sqla_column_type target_type dttm = None)"
  by (simp add: convert_dttm_def)

theorem convert_dttm_by_column_type_witness:
  "convert_dttm example_column_type ''DATE'' example_dttm =
     Some (''CONVERT(DATE, '' @ apostrophe @ ''2019-01-02'' @ apostrophe @ '', 23)'')
   \<and> convert_dttm example_column_type ''SMALLDATETIME'' example_dttm =
     Some (''CONVERT(SMALLDATETIME, '' @ apostrophe @ ''2019-01-02 03:04:05'' @ apostrophe @
           '', 20)'')
   \<and> convert_dttm example_column_type ''DATETIME'' example_dttm =
     Some (''CONVERT(DATETIME, '' @ apostrophe @ ''2019-01-02T03:04:05.678'' @ apostrophe @
           '', 126)'')
   \<and> convert_dttm example_column_type ''NVARCHAR'' example_dttm = None
   \<and> convert_dttm example_column_type ''GEOGRAPHY'' example_dttm = None"
proof -
  have types:
    "example_column_type ''DATE'' =
       Some \<lparr>isinstance_Date = True, isinstance_SMALLDATETIME = False,
             isinstance_DateTime = False\<rparr>"
    "example_column_type ''SMALLDATETIME'' =
       Some \<lparr>isinstance_Date = False, isinstance_SMALLDATETIME = True,
             isinstance_DateTime = True\<rparr>"
    "example_column_type ''DATETIME'' =
       Some \<lparr>isinstance_Date = False, isinstance_SMALLDATETIME = False,
             isinstance_DateTime = True\<rparr>"
    "example_column_type ''NVARCHAR'' =
       Some \<lparr>isinstance_Date = False, isinstance_SMALLDATETIME = False,
             isinstance_DateTime = False\<rparr>"
    "example_column_type ''GEOGRAPHY'' = None"
    by (simp_all add: example_column_type_def)
  have a: "convert_dttm example_column_type ''DATE'' example_dttm =
     Some (''CONVERT(DATE, '' @ apostrophe @ ''2019-01-02'' @ apostrophe @ '', 23)'')"
    using convert_dttm_by_column_type [of example_column_type "''DATE''"
      "\<lparr>isinstance_Date = True, isinstance_SMALLDATETIME = False,
        isinstance_DateTime = False\<rparr>" example_dttm]
    by (simp add: types example_dttm_isoformat)
  have b: "convert_dttm example_column_type ''SMALLDATETIME'' example_dttm =
     Some (''CONVERT(SMALLDATETIME, '' @ apostrophe @ ''2019-01-02 03:04:05'' @ apostrophe @
           '', 20)'')"
    using convert_dttm_by_column_type [of example_column_type "''SMALLDATETIME''"
      "\<lparr>isinstance_Date = False, isinstance_SMALLDATETIME = True,
        isinstance_DateTime = True\<rparr>" example_dttm]
    by (simp add: types example_dttm_isoformat)
  have c: "convert_dttm example_column_type ''DATETIME'' example_dttm =
     Some (''CONVERT(DATETIME, '' @ apostrophe @ ''2019-01-02T03:04:05.678'' @ apostrophe @
           '', 126)'')"
    using convert_dttm_by_column_type [of example_column_type "''DATETIME''"
      "\<lparr>isinstance_Date = False, isinstance_SMALLDATETIME = False,
        isinstance_DateTime = True\<rparr>" example_dttm]
    by (simp add: types example_dttm_isoformat)
  have d: "convert_dttm example_column_type ''NVARCHAR'' example_dttm = None"
    using convert_dttm_by_column_type [of example_column_type "''NVARCHAR''"
      "\<lparr>isinstance_Date = False, isinstance_SMALLDATETIME = False,
        isinstance_DateTime = False\<rparr>" example_dttm]
    by (simp add: types)
  have e: "convert_dttm example_column_type ''GEOGRAPHY'' example_dttm = None"
    using convert_dttm_by_column_type [of example_column_type "''GEOGRAPHY''"
      "\<lparr>isinstance_Date = False, isinstance_SMALLDATETIME = False,
        isinstance_DateTime = False\<rparr>" example_dttm]
    by (simp add: types)
  from a b c d e show ?thesis by (intro conjI)
qed

section \<open>The polling loop of Impala\<close>

lemma parse_progress_examples:
  "parse_progress progress_log = Some 3"
  "parse_progress ''Query submitted'' = None"
  unfolding progress_log_def parse_progress_def re_match_def QUERY_PROGRESS_REGEX_def
    int_of_digits_def
  by code_simp+

lemma trace_record_event [simp]: "trace (record_event e s) = trace s @ [e]"
  and progress_record_event [simp]: "progress (record_event e s) = progress s"
  and query_progress_record_event [simp]: "query_progress (record_event e s) = query_progress s"
  and stored_progress_record_event [simp]:
    "stored_progress (record_event e s) = stored_progress s"
  by (simp_all add: record_event_def)

lemma stop_query_stored:
  "stop_query s r = (res, s') \<Longrightarrow>
     stored_progress s' = stored_progress s \<and> progress s' = progress s
     \<and> query_progress s' = query_progress s \<and> (\<forall>st. res \<noteq> Next st)
     \<and> (\<exists>evs. trace s' = trace s @ evs \<and> (\<forall>p. AssignProgress p \<notin> set evs \<and> Commit p \<notin> set evs))"
  by (auto simp: stop_query_def Let_def split: option.splits)

lemma read_log_state:
  "read_log s r = (res, s') \<Longrightarrow>
     stored_progress s' = stored_progress s \<and> progress s' = progress s
     \<and> query_progress s' = query_progress s
     \<and> (\<exists>evs. trace s' = trace s @ evs \<and> Status \<notin> set evs
           \<and> (\<forall>p. AssignProgress p \<notin> set evs \<and> Commit p \<notin> set evs \<and> Sleep p \<notin> set evs))
     \<and> (\<forall>l. res = Inr l \<and> l \<noteq> [] \<longrightarrow> get_log_result r = Inr (Some l))"
  by (auto simp: read_log_def Let_def split: sum.splits option.splits if_splits)

lemma fst_read_log: "fst (read_log s r) = fetched_log r"
  by (simp add: read_log_def fetched_log_def Let_def split: sum.splits option.splits)

lemma update_progress_state:
  assumes "update_progress s r l = (res, s')"
    and "query_progress s = stored_progress s"
    and "\<forall>p. progress s = Some p \<longrightarrow> p \<le> stored_progress s"
  shows "stored_progress s \<le> stored_progress s'"
    and "res = None \<Longrightarrow> \<forall>p. progress s' = Some p \<longrightarrow> p \<le> stored_progress s'"
    and "res = None \<Longrightarrow> progress s' \<noteq> None"
    and "\<exists>evs. trace s' = trace s @ evs \<and> Status \<notin> set evs \<and> (\<forall>p. Sleep p \<notin> set evs)
           \<and> (\<forall>p. AssignProgress p \<in> set evs \<or> Commit p \<in> set evs \<longrightarrow>
                 parse_progress l = Some p \<and> stored_progress s < p \<and> query_progress s' = p)
           \<and> (stored_progress s' \<noteq> stored_progress s \<longrightarrow> Commit (stored_progress s') \<in> set evs)"
  using assms
  by (auto simp: update_progress_def Let_def split: option.splits if_splits)

lemma sleep_and_poll_state:
  "sleep_and_poll cfg s r = (res, s') \<Longrightarrow>
     stored_progress s' = stored_progress s \<and> progress s' = progress s
     \<and> query_progress s' = query_progress s \<and> res \<noteq> Break
     \<and> (\<forall>st. res = Next st \<longrightarrow>
           status_result r = Inr st \<and> trace s' = trace s @ [Sleep (sleep_interval cfg), Status])
     \<and> (\<exists>evs. trace s' = trace s @ evs
           \<and> (\<forall>p. AssignProgress p \<notin> set evs \<and> Commit p \<notin> set evs))"
  by (auto simp: sleep_and_poll_def Let_def split: if_splits sum.splits)

lemma progress_bounded_iff:
  "progress_bounded s = (\<forall>p. progress s = Some p \<longrightarrow> p \<le> stored_progress s)"
  by (auto simp: progress_bounded_def split: option.splits)

lemma loop_body_stored_mono:
  assumes "loop_body cfg s r = (res, s')" and "progress_bounded s"
  shows "stored_progress s \<le> stored_progress s'"
proof -
  let ?s2 = "record_event Requery (record_event Refresh s\<lparr>query_progress := stored_progress s\<rparr>)"
  have s2: "query_progress ?s2 = stored_progress ?s2" "stored_progress ?s2 = stored_progress s"
    "\<forall>p. progress ?s2 = Some p \<longrightarrow> p \<le> stored_progress ?s2"
    using assms(2) by (simp_all add: progress_bounded_iff)
  show ?thesis
  proof (cases "refresh_raises r = None \<and> requery_raises r = None")
    case False
    with assms(1) show ?thesis
      by (auto simp: loop_body_def Let_def split: option.splits)
  next
    case ok: True
    show ?thesis
    proof (cases "early_cancel r")
      case True
      with ok assms(1) have "stop_query ?s2 r = (res, s')"
        by (simp add: loop_body_def Let_def)
      from stop_query_stored [OF this] s2(2) show ?thesis by simp
    next
      case False
      obtain lr s3 where rl: "read_log ?s2 r = (lr, s3)" by (cases "read_log ?s2 r")
      note s3 = read_log_state [OF rl]
      show ?thesis
      proof (cases lr)
        case (Inl e)
        with ok False rl assms(1) have "s' = s3"
          by (simp add: loop_body_def Let_def)
        with s3 s2(2) show ?thesis by simp
      next
        case (Inr l)
        show ?thesis
        proof (cases "l = []")
          case True
          with ok False rl Inr assms(1) have "sleep_and_poll cfg s3 r = (res, s')"
            by (simp add: loop_body_def Let_def)
          from sleep_and_poll_state [OF this] s3 s2(2) show ?thesis by simp
        next
          case nonempty: False
          obtain ex s4 where up: "update_progress s3 r l = (ex, s4)"
            by (cases "update_progress s3 r l")
          have pre: "query_progress s3 = stored_progress s3"
            "\<forall>p. progress s3 = Some p \<longrightarrow> p \<le> stored_progress s3"
            using s3 s2 by simp_all
          have le: "stored_progress s \<le> stored_progress s4"
            using update_progress_state(1) [OF up pre] s3 s2(2) by simp
          show ?thesis
          proof (cases ex)
            case None
            with ok False rl Inr nonempty up assms(1)
            have "sleep_and_poll cfg s4 r = (res, s')"
              by (simp add: loop_body_def Let_def)
            from sleep_and_poll_state [OF this] le show ?thesis by simp
          next
            case (Some e)
            with ok False rl Inr nonempty up assms(1) have "s' = s4"
              by (simp add: loop_body_def Let_def)
            with le show ?thesis by simp
          qed
        qed
      qed
    qed
  qed
qed

lemma loop_body_Next_bounded:
  assumes "loop_body cfg s r = (Next st, s')" and "progress_bounded s"
  shows "progress_bounded s'"
proof -
  let ?s2 = "record_event Requery (record_event Refresh s\<lparr>query_progress := stored_progress s\<rparr>)"
  have s2: "query_progress ?s2 = stored_progress ?s2" "stored_progress ?s2 = stored_progress s"
    "\<forall>p. progress ?s2 = Some p \<longrightarrow> p \<le> stored_progress ?s2"
    using assms(2) by (simp_all add: progress_bounded_iff)
  have ok: "refresh_raises r = None" "requery_raises r = None"
    using assms(1) by (auto simp: loop_body_def Let_def split: option.splits)
  have nc: "\<not> early_cancel r"
  proof
    assume "early_cancel r"
    with ok assms(1) have "stop_query ?s2 r = (Next st, s')"
      by (simp add: loop_body_def Let_def)
    from stop_query_stored [OF this] show False by simp
  qed
  obtain lr s3 where rl0: "read_log ?s2 r = (lr, s3)" by (cases "read_log ?s2 r")
  from ok nc rl0 assms(1) obtain l where "lr = Inr l"
    by (cases lr) (simp_all add: loop_body_def Let_def)
  with rl0 have rl: "read_log ?s2 r = (Inr l, s3)" by simp
  note s3 = read_log_state [OF rl]
  have pre: "query_progress s3 = stored_progress s3"
    "\<forall>p. progress s3 = Some p \<longrightarrow> p \<le> stored_progress s3"
    using s3 s2 by simp_all
  show ?thesis
  proof (cases "l = []")
    case True
    with ok nc rl assms(1) have "sleep_and_poll cfg s3 r = (Next st, s')"
      by (simp add: loop_body_def Let_def)
    from sleep_and_poll_state [OF this] pre(2) show ?thesis
      by (simp add: progress_bounded_iff)
  next
    case nonempty: False
    obtain ex s4 where up: "update_progress s3 r l = (ex, s4)"
      by (cases "update_progress s3 r l")
    have "ex = None"
      using ok nc rl nonempty up assms(1)
      by (cases ex) (simp_all add: loop_body_def Let_def)
    with ok nc rl nonempty up assms(1) have sp: "sleep_and_poll cfg s4 r = (Next st, s')"
      by (simp add: loop_body_def Let_def)
    from update_progress_state(2) [OF up pre \<open>ex = None\<close>] sleep_and_poll_state [OF sp]
    show ?thesis by (simp add: progress_bounded_iff)
  qed
qed

lemma poll_loop_stored_mono:
  "progress_bounded s \<Longrightarrow> stored_progress s \<le> stored_progress (snd (poll_loop cfg status s rs))"
proof (induction rs arbitrary: status s)
  case Nil
  show ?case by simp
next
  case (Cons r rs)
  obtain res s' where b: "loop_body cfg s r = (res, s')" by (cases "loop_body cfg s r")
  note le = loop_body_stored_mono [OF b Cons.prems]
  show ?case
  proof (cases "status \<in> set unfinished_states")
    case False
    then show ?thesis by simp
  next
    case True
    show ?thesis
    proof (cases res)
      case (Next st')
      with b Cons.prems have "progress_bounded s'" by (auto intro: loop_body_Next_bounded)
      from Cons.IH [OF this, of st'] le True b Next show ?thesis by simp
    next
      case Break
      with True b le show ?thesis by simp
    next
      case (Raise ex)
      with True b le show ?thesis by simp
    qed
  qed
qed

lemma poll_loop_Pending_bounded:
  "progress_bounded s \<Longrightarrow> poll_loop cfg status s rs = (Pending, s') \<Longrightarrow> progress_bounded s'"
proof (induction rs arbitrary: status s)
  case Nil
  then show ?case by (simp split: if_splits)
next
  case (Cons r rs)
  obtain res s1 where b: "loop_body cfg s r = (res, s1)" by (cases "loop_body cfg s r")
  from Cons.prems(2) b have u: "status \<in> set unfinished_states"
    by (auto split: if_splits)
  show ?case
  proof (cases res)
    case (Next st')
    with b Cons.prems(1) have "progress_bounded s1" by (auto intro: loop_body_Next_bounded)
    moreover from Cons.prems(2) b u Next have "poll_loop cfg st' s1 rs = (Pending, s')" by simp
    ultimately show ?thesis by (rule Cons.IH)
  next
    case Break
    with Cons.prems(2) b u show ?thesis by simp
  next
    case (Raise ex)
    with Cons.prems(2) b u show ?thesis by simp
  qed
qed

lemma poll_loop_take_mono:
  "progress_bounded s \<Longrightarrow>
     stored_progress (snd (poll_loop cfg status s (take n rs)))
       \<le> stored_progress (snd (poll_loop cfg status s rs))"
proof (induction rs arbitrary: status s n)
  case Nil
  show ?case by simp
next
  case (Cons r rs)
  show ?case
  proof (cases n)
    case 0
    have "stored_progress (snd (poll_loop cfg status s [])) = stored_progress s" by simp
    with poll_loop_stored_mono [OF Cons.prems, of cfg status "r # rs"] 0 show ?thesis by simp
  next
    case (Suc n')
    obtain res s' where b: "loop_body cfg s r = (res, s')" by (cases "loop_body cfg s r")
    show ?thesis
    proof (cases "status \<in> set unfinished_states")
      case False
      with Suc show ?thesis by simp
    next
      case True
      show ?thesis
      proof (cases res)
        case (Next st')
        with b Cons.prems have "progress_bounded s'" by (auto intro: loop_body_Next_bounded)
        from Cons.IH [OF this, of st' n'] True b Next Suc show ?thesis by simp
      next
        case Break
        with True b Suc show ?thesis by simp
      next
        case (Raise ex)
        with True b Suc show ?thesis by simp
      qed
    qed
  qed
qed

lemma new_events_append: "trace s' = trace s @ evs \<Longrightarrow> new_events s s' = evs"
  by (simp add: new_events_def)

lemma loop_body_assignments:
  assumes "loop_body cfg s r = (res, s')" and "progress_bounded s"
  shows "(\<forall>p. AssignProgress p \<in> set (new_events s s') \<or> Commit p \<in> set (new_events s s') \<longrightarrow>
            (\<exists>l. get_log_result r = Inr (Some l) \<and> parse_progress l = Some p)
            \<and> stored_progress s < p \<and> query_progress s' = p)
         \<and> (stored_progress s' \<noteq> stored_progress s \<longrightarrow>
               Commit (stored_progress s') \<in> set (new_events s s'))"
proof -
  let ?s1 = "record_event Refresh s"
  let ?s2 = "record_event Requery (?s1\<lparr>query_progress := stored_progress s\<rparr>)"
  have s2: "query_progress ?s2 = stored_progress ?s2" "stored_progress ?s2 = stored_progress s"
    "\<forall>p. progress ?s2 = Some p \<longrightarrow> p \<le> stored_progress ?s2"
    "trace ?s2 = trace s @ [Refresh, Requery]"
    using assms(2) by (simp_all add: progress_bounded_iff)
  show ?thesis
  proof (cases "refresh_raises r = None \<and> requery_raises r = None")
    case False
    with assms(1) have "(s' = ?s1 \<or> s' = ?s2)"
      by (auto simp: loop_body_def Let_def split: option.splits)
    then have "new_events s s' = [Refresh] \<or> new_events s s' = [Refresh, Requery]"
      "stored_progress s' = stored_progress s"
      by (auto simp: new_events_def)
    then show ?thesis by auto
  next
    case ok: True
    show ?thesis
    proof (cases "early_cancel r")
      case True
      with ok assms(1) have "stop_query ?s2 r = (res, s')"
        by (simp add: loop_body_def Let_def)
      from stop_query_stored [OF this] obtain evs where
        "stored_progress s' = stored_progress s"
        "trace s' = trace s @ [Refresh, Requery] @ evs"
        "\<forall>p. AssignProgress p \<notin> set evs \<and> Commit p \<notin> set evs"
        using s2 by auto
      then show ?thesis by (auto simp: new_events_def)
    next
      case False
      obtain lr s3 where rl: "read_log ?s2 r = (lr, s3)" by (cases "read_log ?s2 r")
      from read_log_state [OF rl] obtain evs3 where s3:
        "stored_progress s3 = stored_progress s" "progress s3 = progress ?s2"
        "query_progress s3 = stored_progress s"
        "trace s3 = trace s @ [Refresh, Requery] @ evs3"
        "\<forall>p. AssignProgress p \<notin> set evs3 \<and> Commit p \<notin> set evs3"
        "\<forall>l. lr = Inr l \<and> l \<noteq> [] \<longrightarrow> get_log_result r = Inr (Some l)"
        using s2 by auto
      have pre: "query_progress s3 = stored_progress s3"
        "\<forall>p. progress s3 = Some p \<longrightarrow> p \<le> stored_progress s3"
        using s3 s2 by simp_all
      have raised: ?thesis if lr: "lr = Inl e" for e
      proof -
        from ok False rl lr assms(1) have "s' = s3"
          by (simp add: loop_body_def Let_def)
        with s3 show ?thesis by (auto simp: new_events_def)
      qed
      have logged: ?thesis if lr: "lr = Inr l" for l
      proof (cases "l = []")
        case True
        with ok False rl lr assms(1) have "sleep_and_poll cfg s3 r = (res, s')"
          by (simp add: loop_body_def Let_def)
        from sleep_and_poll_state [OF this] obtain evs where
          "stored_progress s' = stored_progress s"
          "trace s' = trace s @ [Refresh, Requery] @ evs3 @ evs"
          "\<forall>p. AssignProgress p \<notin> set evs \<and> Commit p \<notin> set evs"
          using s3 by auto
        with s3(5) show ?thesis by (auto simp: new_events_def)
      next
        case nonempty: False
        obtain ex s4 where up: "update_progress s3 r l = (ex, s4)"
          by (cases "update_progress s3 r l")
        from update_progress_state(4) [OF up pre] obtain evs4 where s4:
          "trace s4 = trace s3 @ evs4"
          "\<forall>p. AssignProgress p \<in> set evs4 \<or> Commit p \<in> set evs4 \<longrightarrow>
                 parse_progress l = Some p \<and> stored_progress s3 < p \<and> query_progress s4 = p"
          "stored_progress s4 \<noteq> stored_progress s3 \<longrightarrow> Commit (stored_progress s4) \<in> set evs4"
          by blast
        have "\<exists>evs. trace s' = trace s4 @ evs
                \<and> (\<forall>p. AssignProgress p \<notin> set evs \<and> Commit p \<notin> set evs)
                \<and> stored_progress s' = stored_progress s4 \<and> query_progress s' = query_progress s4"
        proof (cases ex)
          case None
          with ok False rl lr nonempty up assms(1) have "sleep_and_poll cfg s4 r = (res, s')"
            by (simp add: loop_body_def Let_def)
          from sleep_and_poll_state [OF this] show ?thesis by auto
        next
          case (Some e)
          with ok False rl lr nonempty up assms(1) have "s' = s4"
            by (simp add: loop_body_def Let_def)
          then show ?thesis by simp
        qed
        then obtain evs where s': "trace s' = trace s4 @ evs"
          "\<forall>p. AssignProgress p \<notin> set evs \<and> Commit p \<notin> set evs"
          "stored_progress s' = stored_progress s4" "query_progress s' = query_progress s4"
          by blast
        have ne: "new_events s s' = [Refresh, Requery] @ evs3 @ evs4 @ evs"
          using s' s4(1) s3(4) by (simp add: new_events_def)
        from nonempty s3(6) lr have log: "get_log_result r = Inr (Some l)" by simp
        show ?thesis
          unfolding ne using s' s4 s3(1-5) log by auto
      qed
      from raised logged show ?thesis by (cases lr)
    qed
  qed
qed

lemma handle_cursor_stored:
  "stored_progress (snd (handle_cursor cfg first_status query rounds)) =
     stored_progress (snd (handle_cursor_try cfg first_status query rounds))"
  by (cases "handle_cursor_try cfg first_status query rounds"; cases "fst (handle_cursor_try cfg first_status query rounds)")
     (auto simp: handle_cursor_def split: if_splits)

lemma handle_cursor_try_take_mono:
  "stored_progress (snd (handle_cursor_try cfg first_status query (take n rounds)))
     \<le> stored_progress (snd (handle_cursor_try cfg first_status query rounds))"
proof (cases first_status)
  case (Inl ex)
  then show ?thesis by (simp add: handle_cursor_try_def)
next
  case (Inr status)
  have "progress_bounded \<lparr>progress = None, query_progress = fst query,
          stored_progress = snd query, trace = [Status]\<rparr>"
    by (simp add: progress_bounded_def)
  from poll_loop_take_mono [OF this, of cfg status n rounds] Inr show ?thesis
    by (simp add: handle_cursor_try_def)
qed

lemma handle_cursor_RunningD:
  assumes "handle_cursor cfg first_status query rounds = (Running, s)"
  shows "progress_bounded s"
proof -
  let ?s0 = "\<lparr>progress = None, query_progress = fst query,
          stored_progress = snd query, trace = [Status]\<rparr>"
  have b0: "progress_bounded ?s0" by (simp add: progress_bounded_def)
  from assms have t: "handle_cursor_try cfg first_status query rounds = (Pending, s)"
    by (cases "handle_cursor_try cfg first_status query rounds";
        cases "fst (handle_cursor_try cfg first_status query rounds)")
       (auto simp: handle_cursor_def split: if_splits)
  then obtain status where "first_status = Inr status"
    by (cases first_status) (auto simp: handle_cursor_try_def)
  with t have "poll_loop cfg status ?s0 rounds = (Pending, s)"
    by (simp add: handle_cursor_try_def)
  from poll_loop_Pending_bounded [OF b0 this] show ?thesis .
qed

text \<open>
  C8. The stored progress of the query never decreases during \<open>handle_cursor\<close>: it is never
  below the progress at entry, and the run over more rounds has at least the stored progress of
  the run over fewer. In every round of a run, the progress is assigned or committed only with
  the value parsed from the log of that round, which is strictly greater than the query's
  progress (reloaded from the row); the stored progress changes by such a commit only.
\<close>

theorem stored_progress_never_decreases:
  "snd query \<le> stored_progress (snd (handle_cursor cfg first_status query rounds))
   \<and> (n \<le> m \<longrightarrow>
        stored_progress (snd (handle_cursor cfg first_status query (take n rounds)))
          \<le> stored_progress (snd (handle_cursor cfg first_status query (take m rounds))))
   \<and> (handle_cursor cfg first_status query rounds = (Running, s)
        \<and> loop_body cfg s r = (res, s') \<longrightarrow>
          (\<forall>p. AssignProgress p \<in> set (new_events s s') \<or> Commit p \<in> set (new_events s s') \<longrightarrow>
             (\<exists>l. get_log_result r = Inr (Some l) \<and> parse_progress l = Some p)
             \<and> stored_progress s < p \<and> query_progress s' = p)
          \<and> (stored_progress s' \<noteq> stored_progress s \<longrightarrow>
                Commit (stored_progress s') \<in> set (new_events s s'))
          \<and> stored_progress s \<le> stored_progress s')"
proof (intro conjI impI)
  have "stored_progress (snd (handle_cursor_try cfg first_status query (take 0 rounds))) =
          snd query"
    by (cases first_status) (simp_all add: handle_cursor_try_def Let_def)
  with handle_cursor_try_take_mono [of cfg first_status query 0 rounds]
  show "snd query \<le> stored_progress (snd (handle_cursor cfg first_status query rounds))"
    by (simp add: handle_cursor_stored)
next
  assume "n \<le> m"
  then have "take n rounds = take n (take m rounds)" by (simp add: min_def)
  with handle_cursor_try_take_mono [of cfg first_status query n "take m rounds"]
  show "stored_progress (snd (handle_cursor cfg first_status query (take n rounds)))
          \<le> stored_progress (snd (handle_cursor cfg first_status query (take m rounds)))"
    by (simp add: handle_cursor_stored)
next
  assume a: "handle_cursor cfg first_status query rounds = (Running, s)
        \<and> loop_body cfg s r = (res, s')"
  then have b: "progress_bounded s" by (blast dest: handle_cursor_RunningD)
  from a loop_body_assignments [OF _ b] loop_body_stored_mono [OF _ b]
  show "\<forall>p. AssignProgress p \<in> set (new_events s s') \<or> Commit p \<in> set (new_events s s') \<longrightarrow>
             (\<exists>l. get_log_result r = Inr (Some l) \<and> parse_progress l = Some p)
             \<and> stored_progress s < p \<and> query_progress s' = p"
    and "stored_progress s' \<noteq> stored_progress s \<Longrightarrow>
                Commit (stored_progress s') \<in> set (new_events s s')"
    and "stored_progress s \<le> stored_progress s'"
    by blast+
qed

lemma progress_log_nonempty: "progress_log \<noteq> []"
  by (simp add: progress_log_def)

lemma handle_cursor_no_rounds:
  "handle_cursor (\<lambda>engine. None) (Inr ''RUNNING_STATE'') (0, 0) [] = (Running, entry_state)"
  by (simp add: handle_cursor_def handle_cursor_try_def unfinished_states_def entry_state_def)

lemma loop_body_progress_round:
  "loop_body (\<lambda>engine. None) entry_state progress_round =
     (Next ''RUNNING_STATE'',
      \<lparr>progress = Some 3, query_progress = 3, stored_progress = 3,
       trace = [Status, Refresh, Requery, GetLog, LogDebug ''Query %s: Progress total: %s'',
                AssignProgress 3, Commit 3, Sleep 5, Status]\<rparr>)"
  by (simp add: loop_body_def read_log_def update_progress_def sleep_and_poll_def
      sleep_interval_def record_event_def progress_round_def quiet_round_def entry_state_def
      parse_progress_examples progress_log_nonempty)

theorem stored_progress_never_decreases_witness:
  "handle_cursor (\<lambda>engine. None) (Inr ''RUNNING_STATE'') (0, 0) [] = (Running, entry_state)
   \<and> Commit 3 \<in> set (new_events entry_state
         (snd (loop_body (\<lambda>engine. None) entry_state progress_round)))
   \<and> (\<exists>l. get_log_result progress_round = Inr (Some l) \<and> parse_progress l = Some 3)
   \<and> stored_progress entry_state < 3
   \<and> query_progress (snd (loop_body (\<lambda>engine. None) entry_state progress_round)) = 3
   \<and> stored_progress (snd (handle_cursor (\<lambda>engine. None) (Inr ''RUNNING_STATE'') (0, 0)
         (take 0 [progress_round])))
       \<le> stored_progress (snd (handle_cursor (\<lambda>engine. None) (Inr ''RUNNING_STATE'') (0, 0)
         (take 1 [progress_round])))"
proof -
  have c: "Commit 3 \<in> set (new_events entry_state
         (snd (loop_body (\<lambda>engine. None) entry_state progress_round)))"
  proof -
    have "trace entry_state = [Status]" by (simp add: entry_state_def)
    then show ?thesis by (simp add: loop_body_progress_round new_events_def)
  qed
  have le: "(0::nat) \<le> 1" by simp
  from stored_progress_never_decreases
    [of "(0, 0)" "\<lambda>engine. None" "Inr ''RUNNING_STATE''" "[]" 0 1 entry_state progress_round
        "Next ''RUNNING_STATE''" "snd (loop_body (\<lambda>engine. None) entry_state progress_round)"]
    stored_progress_never_decreases
    [of "(0, 0)" "\<lambda>engine. None" "Inr ''RUNNING_STATE''" "[progress_round]" 0 1]
    handle_cursor_no_rounds c le
  show ?thesis
    by (simp add: loop_body_progress_round)
qed






















section \<open>The configuration module\<close>

subsection \<open>Feature flags from the environment\<close>

lemma rmatch_feature_flag_pos:
  "pos \<noteq> 0 \<Longrightarrow> rmatch FEATURE_FLAG_ENV_REGEX (pos, t, g) = []"
  by (simp add: FEATURE_FLAG_ENV_REGEX_def)

lemma takeWhile_length_pos: "(1 \<le> length (takeWhile P xs)) = (\<exists>c rest. xs = c # rest \<and> P c)"
  by (cases xs) auto

lemma rmatch_feature_flag_start:
  "(rmatch FEATURE_FLAG_ENV_REGEX (0, k, []) \<noteq> []) =
     (\<exists>c rest. k = ''SUPERSET_FEATURE_'' @ c # rest \<and> in_class WordChar c)"
proof -
  have "(rmatch FEATURE_FLAG_ENV_REGEX (0, k, []) \<noteq> []) =
        (prefix ''SUPERSET_FEATURE_'' k
         \<and> 1 \<le> length (takeWhile (in_class WordChar) (drop (length ''SUPERSET_FEATURE_'') k)))"
    unfolding FEATURE_FLAG_ENV_REGEX_def
    by (simp add: repeat_counts_def del: in_class.simps)
  also have "\<dots> = (\<exists>c rest. k = ''SUPERSET_FEATURE_'' @ c # rest \<and> in_class WordChar c)"
    unfolding takeWhile_length_pos
    by (auto simp del: in_class.simps simp: prefix_def)
  finally show ?thesis .
qed

lemma re_search_feature_flag:
  "(re_search FEATURE_FLAG_ENV_REGEX k \<noteq> None) =
     (\<exists>c rest. k = ''SUPERSET_FEATURE_'' @ c # rest \<and> in_class WordChar c)"
proof -
  have "(\<forall>i\<le>length k. rmatch FEATURE_FLAG_ENV_REGEX (0 + i, drop i k, []) = []) =
        (rmatch FEATURE_FLAG_ENV_REGEX (0, k, []) = [])"
  proof
    assume "\<forall>i\<le>length k. rmatch FEATURE_FLAG_ENV_REGEX (0 + i, drop i k, []) = []"
    from this [rule_format, of 0] show "rmatch FEATURE_FLAG_ENV_REGEX (0, k, []) = []" by simp
  next
    assume a: "rmatch FEATURE_FLAG_ENV_REGEX (0, k, []) = []"
    show "\<forall>i\<le>length k. rmatch FEATURE_FLAG_ENV_REGEX (0 + i, drop i k, []) = []"
    proof (intro allI impI)
      fix i
      show "rmatch FEATURE_FLAG_ENV_REGEX (0 + i, drop i k, []) = []"
        using a rmatch_feature_flag_pos [of i] by (cases "i = 0") simp_all
    qed
  qed
  then show ?thesis
    unfolding re_search_def search_from_None_iff rmatch_feature_flag_start [symmetric] by blast
qed

lemma dict_of_distinct: "distinct (map fst xs) \<Longrightarrow> dict_of xs = map_of xs"
proof (induction xs)
  case Nil
  show ?case by (simp add: dict_of_def)
next
  case (Cons x xs)
  obtain k v where x: "x = (k, v)" by (cases x)
  from Cons.prems x have k: "k \<notin> fst ` set xs" and d: "distinct (map fst xs)" by auto
  from Cons.IH [OF d] have ih: "map_of (rev xs) = map_of xs" by (simp add: dict_of_def)
  have "map_of xs k = None" using k by (simp add: map_of_eq_None_iff)
  then show ?case
    unfolding dict_of_def x
    by (auto simp: map_of_append ih map_add_def fun_eq_iff split: option.splits)
qed

lemma prefixed_name_iff:
  "(\<exists>k val. (k, val) \<in> E \<and> (\<exists>c rest. k = P @ c # rest \<and> W c)
       \<and> name = drop (length P) k \<and> b = f val) =
   (\<exists>c rest val. (P @ name, val) \<in> E \<and> name = c # rest \<and> W c \<and> b = f val)"
proof
  assume "\<exists>k val. (k, val) \<in> E \<and> (\<exists>c rest. k = P @ c # rest \<and> W c)
       \<and> name = drop (length P) k \<and> b = f val"
  then obtain k val c rest where "(k, val) \<in> E" "k = P @ c # rest" "W c"
    "name = drop (length P) k" "b = f val" by blast
  then have "(P @ name, val) \<in> E" "name = c # rest" "W c" "b = f val" by simp_all
  then show "\<exists>c rest val. (P @ name, val) \<in> E \<and> name = c # rest \<and> W c \<and> b = f val"
    by blast
next
  assume "\<exists>c rest val. (P @ name, val) \<in> E \<and> name = c # rest \<and> W c \<and> b = f val"
  then obtain c rest val where "(P @ name, val) \<in> E" "name = c # rest" "W c" "b = f val"
    by blast
  then have "(P @ name, val) \<in> E \<and> (\<exists>c rest. P @ name = P @ c # rest \<and> W c)
       \<and> name = drop (length P) (P @ name) \<and> b = f val" by simp
  then show "\<exists>k val. (k, val) \<in> E \<and> (\<exists>c rest. k = P @ c # rest \<and> W c)
       \<and> name = drop (length P) k \<and> b = f val" by blast
qed

lemma feature_flags_from_environ_mem:
  "((name, b) \<in> set (feature_flags_from_environ pbs environ)) =
     (\<exists>c rest val. (''SUPERSET_FEATURE_'' @ name, val) \<in> set environ \<and> name = c # rest
        \<and> in_class WordChar c \<and> b = pbs val)"
proof -
  have "((name, b) \<in> set (feature_flags_from_environ pbs environ)) =
        (\<exists>k val. (k, val) \<in> set environ \<and> re_search FEATURE_FLAG_ENV_REGEX k \<noteq> None
            \<and> name = drop (length ''SUPERSET_FEATURE_'') k \<and> b = pbs val)"
    by (auto simp: feature_flags_from_environ_def image_iff simp del: in_class.simps)
  also have "\<dots> = (\<exists>c rest val. (''SUPERSET_FEATURE_'' @ name, val) \<in> set environ
        \<and> name = c # rest \<and> in_class WordChar c \<and> b = pbs val)"
    unfolding re_search_feature_flag by (rule prefixed_name_iff)
  finally show ?thesis .
qed

lemma feature_flags_from_environ_distinct:
  assumes "distinct (map fst environ)"
  shows "distinct (map fst (feature_flags_from_environ pbs environ))"
proof -
  let ?m = "\<lambda>(k, v). re_search FEATURE_FLAG_ENV_REGEX k \<noteq> None"
  let ?n = "length ''SUPERSET_FEATURE_''"
  have m: "map fst (feature_flags_from_environ pbs environ) =
             map (drop ?n) (map fst (filter ?m environ))"
    by (simp add: feature_flags_from_environ_def comp_def case_prod_beta)
  have d: "distinct (map fst (filter ?m environ))"
    using assms by (simp add: distinct_map_filter)
  have inj: "inj_on (drop ?n) (set (map fst (filter ?m environ)))"
  proof (rule inj_onI)
    fix k1 k2
    assume "k1 \<in> set (map fst (filter ?m environ))" "k2 \<in> set (map fst (filter ?m environ))"
      and e: "drop ?n k1 = drop ?n k2"
    then have "re_search FEATURE_FLAG_ENV_REGEX k1 \<noteq> None"
      "re_search FEATURE_FLAG_ENV_REGEX k2 \<noteq> None" by auto
    then obtain r1 r2 where "k1 = ''SUPERSET_FEATURE_'' @ r1" "k2 = ''SUPERSET_FEATURE_'' @ r2"
      unfolding re_search_feature_flag by blast
    with e show "k1 = k2" by simp
  qed
  from d inj have "distinct (map (drop ?n) (map fst (filter ?m environ)))"
    by (subst distinct_map) blast
  then show ?thesis unfolding m .
qed

lemma updated_feature_flags_lookup:
  assumes "distinct (map fst environ)"
  shows "(\<forall>name val c rest.
            (''SUPERSET_FEATURE_'' @ name, val) \<in> set environ \<and> name = c # rest
            \<and> in_class WordChar c \<longrightarrow>
            updated_feature_flags parse_boolean_string environ name =
              Some (parse_boolean_string val))
         \<and> (\<forall>name.
              \<not> (\<exists>val c rest. (''SUPERSET_FEATURE_'' @ name, val) \<in> set environ
                    \<and> name = c # rest \<and> in_class WordChar c) \<longrightarrow>
              updated_feature_flags parse_boolean_string environ name =
                dict_of DEFAULT_FEATURE_FLAGS name)"
proof -
  let ?items = "feature_flags_from_environ parse_boolean_string environ"
  have d: "dict_of ?items = map_of ?items"
    using assms by (intro dict_of_distinct feature_flags_from_environ_distinct)
  have dist: "distinct (map fst ?items)"
    using assms by (rule feature_flags_from_environ_distinct)
  show ?thesis
  proof (intro conjI allI impI)
    fix name val c rest
    assume "(''SUPERSET_FEATURE_'' @ name, val) \<in> set environ \<and> name = c # rest
            \<and> in_class WordChar c"
    then have "(name, parse_boolean_string val) \<in> set ?items"
      unfolding feature_flags_from_environ_mem by blast
    with dist have "map_of ?items name = Some (parse_boolean_string val)" by simp
    then show "updated_feature_flags parse_boolean_string environ name =
              Some (parse_boolean_string val)"
      by (simp add: updated_feature_flags_def d)
  next
    fix name
    assume n: "\<not> (\<exists>val c rest. (''SUPERSET_FEATURE_'' @ name, val) \<in> set environ
                    \<and> name = c # rest \<and> in_class WordChar c)"
    have "map_of ?items name = None"
    proof (rule ccontr)
      assume "map_of ?items name \<noteq> None"
      then obtain b where "map_of ?items name = Some b" by blast
      then have "(name, b) \<in> set ?items" by (rule map_of_SomeD)
      with n show False unfolding feature_flags_from_environ_mem by blast
    qed
    then show "updated_feature_flags parse_boolean_string environ name =
                dict_of DEFAULT_FEATURE_FLAGS name"
      by (simp add: updated_feature_flags_def d map_add_def)
  qed
qed

lemma default_feature_flags_examples:
  "dict_of DEFAULT_FEATURE_FLAGS ''ALERT_REPORTS'' = Some False"
  "dict_of DEFAULT_FEATURE_FLAGS ''DRILL_BY'' = Some True"
  "dict_of DEFAULT_FEATURE_FLAGS [] = None"
  unfolding dict_of_def DEFAULT_FEATURE_FLAGS_def by code_simp+

subsection \<open>The deployment override\<close>

lemma isupper_block_names: "isupper name \<Longrightarrow> name \<notin> set block_names"
  by (auto simp: block_names_def isupper_def is_lower_char_def)

lemma copy_settings_lookup:
  "name \<noteq> ''key'' \<Longrightarrow>
     copy_settings items config name =
       (case map_of (rev items) name of
          Some v \<Rightarrow> if isupper name then Some v else config name
        | None \<Rightarrow> config name)"
proof (induction items arbitrary: config)
  case Nil
  show ?case by simp
next
  case (Cons item items)
  obtain k v where item: "item = (k, v)" by (cases item)
  show ?case
    unfolding item using Cons.prems
    by (simp add: Cons.IH map_of_append map_add_def split: option.splits)
qed

lemma map_filter_Pair_fst:
  "map fst (List.map_filter (\<lambda>k. map_option (Pair k) (f k)) ks) = filter (\<lambda>k. f k \<noteq> None) ks"
  by (induction ks) (auto simp: List.map_filter_simps split: option.splits)

lemma map_of_map_filter_Pair:
  "map_of (List.map_filter (\<lambda>k. map_option (Pair k) (f k)) ks) name =
     (if name \<in> set ks then f name else None)"
  by (induction ks) (auto simp: List.map_filter_simps split: option.splits)

lemma dir_items_lookup: "map_of (rev (dir_items m)) name = map_of (attributes m) name"
proof -
  let ?ks = "sort (remdups (map fst (attributes m)))"
  have "distinct (map fst (dir_items m))"
    unfolding dir_items_def map_filter_Pair_fst by simp
  then have "map_of (rev (dir_items m)) = map_of (dir_items m)"
    using dict_of_distinct [of "dir_items m"] by (simp add: dict_of_def)
  moreover have "map_of (dir_items m) name =
      (if name \<in> set ?ks then map_of (attributes m) name else None)"
    unfolding dir_items_def by (rule map_of_map_filter_Pair)
  moreover have "name \<notin> set ?ks \<Longrightarrow> map_of (attributes m) name = None"
    by (simp add: map_of_eq_None_iff)
  ultimately show ?thesis by simp
qed

lemma load_override_path:
  assumes "map_of (os_environ env) CONFIG_PATH_ENV_VAR = Some cfg_path"
    and "exec_config_file env cfg_path = Inr override_conf"
  shows "\<exists>config. load_override env defaults = Inr config
           \<and> (\<forall>name. name \<notin> set block_names \<longrightarrow>
                 config name =
                   (if isupper name \<and> map_of (attributes override_conf) name \<noteq> None
                    then map_of (attributes override_conf) name else defaults name))"
proof -
  let ?start = "defaults(''cfg_path'' \<mapsto> PyStr cfg_path,
                         ''module'' \<mapsto> PyModule ''superset.config'',
                         ''spec'' \<mapsto> PyModuleSpec ''superset_config'' cfg_path,
                         ''override_conf'' \<mapsto> PyModule ''superset_config'')"
  let ?config = "copy_settings (dir_items override_conf) ?start"
  have l: "load_override env defaults = Inr ?config"
    using assms by (simp add: load_override_def)
  have "?config name =
          (if isupper name \<and> map_of (attributes override_conf) name \<noteq> None
           then map_of (attributes override_conf) name else defaults name)"
    if "name \<notin> set block_names" for name
  proof -
    from that have k: "name \<noteq> ''key''" and s: "?start name = defaults name"
      by (auto simp: block_names_def)
    show ?thesis
      unfolding copy_settings_lookup [OF k] dir_items_lookup s
      by (auto split: option.splits)
  qed
  with l show ?thesis by blast
qed

lemma import_names_lookup:
  "import_names m names config = Inr config' \<Longrightarrow>
     config' name = (if name \<in> set names then map_of (attributes m) name else config name)
     \<and> (name \<in> set names \<longrightarrow> map_of (attributes m) name \<noteq> None)"
proof (induction names arbitrary: config)
  case Nil
  then show ?case by simp
next
  case (Cons n names)
  from Cons.prems obtain v where v: "map_of (attributes m) n = Some v"
    and r: "import_names m names (config(n \<mapsto> v)) = Inr config'"
    by (auto split: option.splits)
  from Cons.IH [OF r] v show ?case by auto
qed

lemma import_names_defined:
  "set names \<subseteq> fst ` set (attributes m) \<Longrightarrow> \<exists>config'. import_names m names config = Inr config'"
proof (induction names arbitrary: config)
  case Nil
  show ?case by simp
next
  case (Cons n names)
  from Cons.prems have "map_of (attributes m) n \<noteq> None" by (simp add: map_of_eq_None_iff)
  then obtain v where v: "map_of (attributes m) n = Some v" by blast
  from Cons.prems have sub: "set names \<subseteq> fst ` set (attributes m)" by simp
  from Cons.IH [OF sub, of "config(n \<mapsto> v)"] obtain config' where
    "import_names m names (config(n \<mapsto> v)) = Inr config'" by blast
  with v show ?case by simp
qed

lemma load_override_module:
  assumes "map_of (os_environ env) CONFIG_PATH_ENV_VAR = None"
    and "import_superset_config env = Some (Inr superset_config)"
    and "load_override env defaults = Inr config"
  shows "config name =
           (if name \<in> set (star_import_names superset_config)
            then map_of (attributes superset_config) name
            else if name = ''superset_config'' then Some (PyModule ''superset_config'')
            else defaults name)"
    and "name \<in> set (star_import_names superset_config) \<Longrightarrow>
           map_of (attributes superset_config) name \<noteq> None"
proof -
  from assms have i: "import_names superset_config (star_import_names superset_config)
         (defaults(''superset_config'' \<mapsto> PyModule ''superset_config'')) = Inr config"
    by (simp add: load_override_def)
  from import_names_lookup [OF i, of name]
  show "config name =
           (if name \<in> set (star_import_names superset_config)
            then map_of (attributes superset_config) name
            else if name = ''superset_config'' then Some (PyModule ''superset_config'')
            else defaults name)"
    and "name \<in> set (star_import_names superset_config) \<Longrightarrow>
           map_of (attributes superset_config) name \<noteq> None"
    by auto
qed

lemma load_override_module_public:
  assumes "map_of (os_environ env) CONFIG_PATH_ENV_VAR = None"
    and "import_superset_config env = Some (Inr superset_config)"
    and "dunder_all superset_config = None"
  shows "\<exists>config. load_override env defaults = Inr config"
proof -
  have "set (star_import_names superset_config) \<subseteq> fst ` set (attributes superset_config)"
    using assms(3) by (auto simp: star_import_names_def)
  from import_names_defined [OF this] assms(1,2) show ?thesis
    by (simp add: load_override_def)
qed

text \<open>
  C1, as amended. When \<open>SUPERSET_CONFIG_PATH\<close> is set and the file it names loads, the import
  succeeds and every name of the override for which \<open>isupper\<close> holds has the override's value
  in the config module; every other name keeps its value, but for the five names the block
  binds for itself. When the variable is not set and \<open>superset_config\<close> is importable, every
  name that \<open>from superset_config import *\<close> exports (the names of \<open>__all__\<close>, or else the names
  without a leading underscore) has the override's value once the import has succeeded, as it
  does when the module has no \<open>__all__\<close>; every other name keeps its value, but for
  \<open>superset_config\<close> itself. Without either, the namespace is unchanged.
\<close>

theorem deployment_override_wins:
  "(map_of (os_environ env) CONFIG_PATH_ENV_VAR = Some cfg_path
      \<and> exec_config_file env cfg_path = Inr override_conf \<longrightarrow>
      (\<exists>config. load_override env defaults = Inr config
         \<and> (\<forall>name. isupper name \<and> map_of (attributes override_conf) name \<noteq> None \<longrightarrow>
               config name = map_of (attributes override_conf) name)
         \<and> (\<forall>name. \<not> (isupper name \<and> map_of (attributes override_conf) name \<noteq> None)
                 \<and> name \<notin> set block_names \<longrightarrow>
               config name = defaults name)))
   \<and> (map_of (os_environ env) CONFIG_PATH_ENV_VAR = None
        \<and> import_superset_config env = Some (Inr superset_config)
        \<and> load_override env defaults = Inr config \<longrightarrow>
          (\<forall>name. name \<in> set (star_import_names superset_config) \<longrightarrow>
             config name = map_of (attributes superset_config) name
             \<and> map_of (attributes superset_config) name \<noteq> None)
          \<and> (\<forall>name. name \<notin> set (star_import_names superset_config)
                 \<and> name \<noteq> ''superset_config'' \<longrightarrow>
               config name = defaults name))
   \<and> (map_of (os_environ env) CONFIG_PATH_ENV_VAR = None
        \<and> import_superset_config env = Some (Inr superset_config)
        \<and> dunder_all superset_config = None \<longrightarrow>
          (\<exists>config. load_override env defaults = Inr config))
   \<and> (map_of (os_environ env) CONFIG_PATH_ENV_VAR = None
        \<and> import_superset_config env = None \<longrightarrow>
          load_override env defaults = Inr defaults)"
proof (intro conjI impI)
  assume a: "map_of (os_environ env) CONFIG_PATH_ENV_VAR = Some cfg_path
      \<and> exec_config_file env cfg_path = Inr override_conf"
  then obtain config where c: "load_override env defaults = Inr config"
    and l: "\<And>name. name \<notin> set block_names \<Longrightarrow>
              config name =
                (if isupper name \<and> map_of (attributes override_conf) name \<noteq> None
                 then map_of (attributes override_conf) name else defaults name)"
    using load_override_path [of env cfg_path override_conf defaults] by blast
  have "\<forall>name. isupper name \<and> map_of (attributes override_conf) name \<noteq> None \<longrightarrow>
               config name = map_of (attributes override_conf) name"
    using l isupper_block_names by simp
  moreover have "\<forall>name. \<not> (isupper name \<and> map_of (attributes override_conf) name \<noteq> None)
                 \<and> name \<notin> set block_names \<longrightarrow> config name = defaults name"
    using l by auto
  ultimately show "\<exists>config. load_override env defaults = Inr config
         \<and> (\<forall>name. isupper name \<and> map_of (attributes override_conf) name \<noteq> None \<longrightarrow>
               config name = map_of (attributes override_conf) name)
         \<and> (\<forall>name. \<not> (isupper name \<and> map_of (attributes override_conf) name \<noteq> None)
                 \<and> name \<notin> set block_names \<longrightarrow>
               config name = defaults name)"
    using c by blast
next
  assume a: "map_of (os_environ env) CONFIG_PATH_ENV_VAR = None
        \<and> import_superset_config env = Some (Inr superset_config)
        \<and> load_override env defaults = Inr config"
  then have l: "\<And>name. config name =
           (if name \<in> set (star_import_names superset_config)
            then map_of (attributes superset_config) name
            else if name = ''superset_config'' then Some (PyModule ''superset_config'')
            else defaults name)"
    and d: "\<And>name. name \<in> set (star_import_names superset_config) \<Longrightarrow>
           map_of (attributes superset_config) name \<noteq> None"
    using load_override_module [of env superset_config defaults config] by blast+
  show "\<forall>name. name \<in> set (star_import_names superset_config) \<longrightarrow>
             config name = map_of (attributes superset_config) name
             \<and> map_of (attributes superset_config) name \<noteq> None"
    using l d by simp
  show "\<forall>name. name \<notin> set (star_import_names superset_config)
                 \<and> name \<noteq> ''superset_config'' \<longrightarrow> config name = defaults name"
    using l by simp
next
  assume "map_of (os_environ env) CONFIG_PATH_ENV_VAR = None
        \<and> import_superset_config env = Some (Inr superset_config)
        \<and> dunder_all superset_config = None"
  then show "\<exists>config. load_override env defaults = Inr config"
    using load_override_module_public by blast
next
  assume "map_of (os_environ env) CONFIG_PATH_ENV_VAR = None
        \<and> import_superset_config env = None"
  then show "load_override env defaults = Inr defaults"
    by (simp add: load_override_def)
qed

lemma example_override_facts:
  "map_of (attributes example_override) ''ROW_LIMIT'' = Some (PyInt 5)"
  "map_of (attributes example_override) ''row_limit'' = Some (PyInt 7)"
  "map_of (attributes example_override) ''_SECRET_TOKEN'' = Some (PyStr ''s3cret'')"
  "star_import_names example_override = [''ROW_LIMIT'', ''row_limit'']"
  "dunder_all example_override = None"
  by (simp_all add: example_override_def star_import_names_def)

lemma example_names:
  "isupper ''ROW_LIMIT''" "\<not> isupper ''row_limit''" "isupper ''_SECRET_TOKEN''"
  "''row_limit'' \<notin> set block_names" "''ROW_LIMIT'' \<notin> set block_names"
  by (simp_all add: isupper_def is_upper_char_def is_lower_char_def block_names_def)

lemma example_env_facts:
  "map_of (os_environ path_env) CONFIG_PATH_ENV_VAR = Some ''/app/pythonpath/superset_config.py''"
  "exec_config_file path_env ''/app/pythonpath/superset_config.py'' = Inr example_override"
  "map_of (os_environ module_env) CONFIG_PATH_ENV_VAR = None"
  "import_superset_config module_env = Some (Inr example_override)"
  by (simp_all add: path_env_def module_env_def CONFIG_PATH_ENV_VAR_def)

lemma example_defaults_facts:
  "example_defaults ''row_limit'' = None" "example_defaults ''_SECRET_TOKEN'' = None"
  "example_defaults ''ROW_LIMIT'' = Some (PyInt 50000)"
  by (simp_all add: example_defaults_def)

theorem deployment_override_wins_witness:
  "setting_after (load_override path_env example_defaults) ''ROW_LIMIT'' = Some (PyInt 5)
   \<and> setting_after (load_override module_env example_defaults) ''ROW_LIMIT'' = Some (PyInt 5)
   \<and> setting_after (load_override module_env example_defaults) ''row_limit'' = Some (PyInt 7)"
proof -
  note t1 = deployment_override_wins
      [of path_env "''/app/pythonpath/superset_config.py''" example_override example_defaults,
       THEN conjunct1, rule_format]
  from t1 example_env_facts(1,2) obtain config where
    c: "load_override path_env example_defaults = Inr config"
    and u: "\<forall>name. isupper name \<and> map_of (attributes example_override) name \<noteq> None \<longrightarrow>
               config name = map_of (attributes example_override) name"
    by blast
  from u example_names(1) example_override_facts(1)
  have "config ''ROW_LIMIT'' = Some (PyInt 5)" by simp
  with c have 1: "setting_after (load_override path_env example_defaults) ''ROW_LIMIT'' =
      Some (PyInt 5)"
    by (simp add: setting_after_def)
  from deployment_override_wins
      [of module_env _ _ example_defaults example_override,
       THEN conjunct2, THEN conjunct2, THEN conjunct1, rule_format]
    example_env_facts(3,4) example_override_facts(5)
  obtain config' where c': "load_override module_env example_defaults = Inr config'"
    by blast
  from deployment_override_wins
      [of module_env _ _ example_defaults example_override config',
       THEN conjunct2, THEN conjunct1, rule_format]
    example_env_facts(3,4) c'
  have s: "\<forall>name. name \<in> set (star_import_names example_override) \<longrightarrow>
             config' name = map_of (attributes example_override) name
             \<and> map_of (attributes example_override) name \<noteq> None"
    by blast
  from s have "config' ''ROW_LIMIT'' = Some (PyInt 5)" "config' ''row_limit'' = Some (PyInt 7)"
    by (simp_all add: example_override_facts)
  with c' have 2:
    "setting_after (load_override module_env example_defaults) ''ROW_LIMIT'' = Some (PyInt 5)"
    "setting_after (load_override module_env example_defaults) ''row_limit'' = Some (PyInt 7)"
    by (simp_all add: setting_after_def)
  from 1 2 show ?thesis by (intro conjI)
qed

text \<open>
  C1 as stated fails: not every name the override defines is taken over. Loaded through
  \<open>SUPERSET_CONFIG_PATH\<close>, the override's \<open>row_limit\<close> is skipped by the test \<open>key.isupper()\<close>;
  imported as \<open>superset_config\<close>, its \<open>_SECRET_TOKEN\<close> is skipped by the star import (while
  \<open>row_limit\<close> is taken over).
\<close>

theorem override_skips_names_counterexample:
  "map_of (os_environ path_env) CONFIG_PATH_ENV_VAR = Some ''/app/pythonpath/superset_config.py''
   \<and> exec_config_file path_env ''/app/pythonpath/superset_config.py'' = Inr example_override
   \<and> map_of (attributes example_override) ''row_limit'' = Some (PyInt 7)
   \<and> (case load_override path_env example_defaults of
         Inl ex \<Rightarrow> False
       | Inr config \<Rightarrow> config ''row_limit'' = None \<and> config ''ROW_LIMIT'' = Some (PyInt 5))
   \<and> map_of (os_environ module_env) CONFIG_PATH_ENV_VAR = None
   \<and> import_superset_config module_env = Some (Inr example_override)
   \<and> map_of (attributes example_override) ''_SECRET_TOKEN'' = Some (PyStr ''s3cret'')
   \<and> (case load_override module_env example_defaults of
         Inl ex \<Rightarrow> False
       | Inr config \<Rightarrow> config ''_SECRET_TOKEN'' = None \<and> config ''row_limit'' = Some (PyInt 7))"
proof -
  from load_override_path [OF example_env_facts(1,2), of example_defaults]
  obtain config where c: "load_override path_env example_defaults = Inr config"
    and l: "\<And>name. name \<notin> set block_names \<Longrightarrow>
              config name =
                (if isupper name \<and> map_of (attributes example_override) name \<noteq> None
                 then map_of (attributes example_override) name else example_defaults name)"
    by blast
  from l [OF example_names(4)] l [OF example_names(5)]
  have "config ''row_limit'' = None \<and> config ''ROW_LIMIT'' = Some (PyInt 5)"
    by (simp add: example_names example_override_facts example_defaults_facts)
  with c have 1: "(case load_override path_env example_defaults of
         Inl ex \<Rightarrow> False
       | Inr config \<Rightarrow> config ''row_limit'' = None \<and> config ''ROW_LIMIT'' = Some (PyInt 5))"
    by simp
  from load_override_module_public [OF example_env_facts(3,4) example_override_facts(5),
      of example_defaults]
  obtain config' where c': "load_override module_env example_defaults = Inr config'" by blast
  from load_override_module(1) [OF example_env_facts(3,4) c', of "''_SECRET_TOKEN''"]
    load_override_module(1) [OF example_env_facts(3,4) c', of "''row_limit''"]
  have "config' ''_SECRET_TOKEN'' = None \<and> config' ''row_limit'' = Some (PyInt 7)"
    by (simp add: example_override_facts example_defaults_facts)
  with c' have 2: "(case load_override module_env example_defaults of
         Inl ex \<Rightarrow> False
       | Inr config \<Rightarrow> config ''_SECRET_TOKEN'' = None \<and> config ''row_limit'' = Some (PyInt 7))"
    by simp
  from example_env_facts example_override_facts(2,3) 1 2 show ?thesis by (intro conjI)
qed

subsection \<open>The feature flags of the loaded module\<close>

lemma dict_of_append: "dict_of (xs @ ys) = dict_of xs ++ dict_of ys"
  by (simp add: dict_of_def map_of_append)

lemma dict_of_map_values:
  "dict_of (map (\<lambda>(k, v). (k, f v)) xs) name = map_option f (dict_of xs name)"
  by (simp add: dict_of_def rev_map map_of_map)

lemma dict_of_feature_flag_items:
  "dict_of (feature_flag_items parse_boolean_string environ) name =
     map_option PyBool (updated_feature_flags parse_boolean_string environ name)"
  unfolding feature_flag_items_def dict_of_map_values updated_feature_flags_def dict_of_append
  by simp

lemma isupper_DEFAULT_FEATURE_FLAGS: "isupper ''DEFAULT_FEATURE_FLAGS''"
  by (simp add: isupper_def is_upper_char_def is_lower_char_def)

lemma load_override_unbound:
  assumes "load_override env defaults = Inr config" and "\<not> override_binds env name"
    and "name \<notin> set block_names" and "name \<noteq> ''superset_config''"
  shows "config name = defaults name"
proof (cases "map_of (os_environ env) CONFIG_PATH_ENV_VAR")
  case (Some cfg_path)
  with assms(1) obtain override_conf where e: "exec_config_file env cfg_path = Inr override_conf"
    by (cases "exec_config_file env cfg_path") (simp_all add: load_override_def)
  from load_override_path [OF Some e, of defaults] assms(1,3)
  have "config name =
          (if isupper name \<and> map_of (attributes override_conf) name \<noteq> None
           then map_of (attributes override_conf) name else defaults name)"
    by auto
  moreover from assms(2) Some e
  have "\<not> (isupper name \<and> map_of (attributes override_conf) name \<noteq> None)"
    by (simp add: override_binds_def)
  ultimately show ?thesis by auto
next
  case None
  show ?thesis
  proof (cases "import_superset_config env")
    case n: None
    with None assms(1) show ?thesis by (simp add: load_override_def)
  next
    case (Some result)
    show ?thesis
    proof (cases result)
      case (Inl ex)
      with None Some assms(1) show ?thesis by (simp add: load_override_def)
    next
      case (Inr superset_config)
      with Some have i: "import_superset_config env = Some (Inr superset_config)" by simp
      from assms(2) None i have "name \<notin> set (star_import_names superset_config)"
        by (simp add: override_binds_def)
      with load_override_module(1) [OF None i assms(1), of name] assms(4)
      show ?thesis by simp
    qed
  qed
qed

text \<open>
  C5, as amended. When \<open>config.py\<close> has loaded and its override block took no
  \<open>DEFAULT_FEATURE_FLAGS\<close> from a deployment override, \<open>DEFAULT_FEATURE_FLAGS\<close> is the dict of the
  module: for every environment variable whose name is \<open>SUPERSET_FEATURE_\<close> followed by a name
  that starts with a word character, the dict maps that name to \<open>parse_boolean_string\<close> of the
  variable's value; every name given by no such variable has the value of the dict literal (or
  none, when the literal does not have it).
\<close>

theorem feature_flags_overridable_by_environment:
  assumes "distinct (map fst (os_environ env))"
    and "load_config parse_boolean_string env settings = Inr config"
    and "\<not> override_binds env ''DEFAULT_FEATURE_FLAGS''"
  shows "config ''DEFAULT_FEATURE_FLAGS'' =
           Some (PyDict (feature_flag_items parse_boolean_string (os_environ env)))
         \<and> (\<forall>name val c rest.
              (''SUPERSET_FEATURE_'' @ name, val) \<in> set (os_environ env) \<and> name = c # rest
              \<and> in_class WordChar c \<longrightarrow>
              feature_flag config name = Some (PyBool (parse_boolean_string val)))
         \<and> (\<forall>name.
              \<not> (\<exists>val c rest. (''SUPERSET_FEATURE_'' @ name, val) \<in> set (os_environ env)
                    \<and> name = c # rest \<and> in_class WordChar c) \<longrightarrow>
              feature_flag config name = map_option PyBool (dict_of DEFAULT_FEATURE_FLAGS name))"
proof -
  let ?items = "feature_flag_items parse_boolean_string (os_environ env)"
  have nb: "''DEFAULT_FEATURE_FLAGS'' \<notin> set block_names"
    "''DEFAULT_FEATURE_FLAGS'' \<noteq> ''superset_config''"
    by (simp_all add: block_names_def)
  from load_override_unbound [OF assms(2) [unfolded load_config_def] assms(3) nb]
  have c: "config ''DEFAULT_FEATURE_FLAGS'' = Some (PyDict ?items)" by simp
  then have f: "feature_flag config name =
      map_option PyBool (updated_feature_flags parse_boolean_string (os_environ env) name)"
    for name
    by (simp add: feature_flag_def dict_of_feature_flag_items)
  note u = updated_feature_flags_lookup [OF assms(1), of parse_boolean_string]
  from c u show ?thesis unfolding f by simp
qed

lemma flags_env_facts:
  "distinct (map fst (os_environ flags_env))"
  "map_of (os_environ flags_env) CONFIG_PATH_ENV_VAR = Some ''/app/pythonpath/superset_config.py''"
  "exec_config_file flags_env cfg_path = Inr example_override"
  "(''SUPERSET_FEATURE_'' @ ''ALERT_REPORTS'', ''true'') \<in> set (os_environ flags_env)"
  "\<not> (\<exists>val c rest. (''SUPERSET_FEATURE_'' @ ''DRILL_BY'', val) \<in> set (os_environ flags_env)
          \<and> ''DRILL_BY'' = c # rest \<and> in_class WordChar c)"
  by (simp_all add: flags_env_def example_environ_def CONFIG_PATH_ENV_VAR_def)

lemma flags_override_env_facts:
  "map_of (os_environ flags_override_env) CONFIG_PATH_ENV_VAR =
     Some ''/app/pythonpath/superset_config.py''"
  "exec_config_file flags_override_env cfg_path = Inr flags_override"
  "(''SUPERSET_FEATURE_ALERT_REPORTS'', ''true'') \<in> set (os_environ flags_override_env)"
  by (simp_all add: flags_override_env_def flags_env_def example_environ_def
      CONFIG_PATH_ENV_VAR_def)

theorem feature_flags_overridable_by_environment_witness:
  "distinct (map fst (os_environ flags_env))
   \<and> \<not> override_binds flags_env ''DEFAULT_FEATURE_FLAGS''
   \<and> (case load_config example_parse_boolean_string flags_env example_defaults of
         Inl ex \<Rightarrow> False
       | Inr config \<Rightarrow>
           feature_flag config ''ALERT_REPORTS'' = Some (PyBool True)
           \<and> feature_flag config ''DRILL_BY'' = Some (PyBool True)
           \<and> feature_flag config [] = None)
   \<and> dict_of DEFAULT_FEATURE_FLAGS ''ALERT_REPORTS'' = Some False"
proof -
  have nb: "\<not> override_binds flags_env ''DEFAULT_FEATURE_FLAGS''"
    by (simp add: override_binds_def flags_env_facts example_override_def)
  from load_override_path [OF flags_env_facts(2,3)]
  obtain config where
    l: "load_config example_parse_boolean_string flags_env example_defaults = Inr config"
    unfolding load_config_def by blast
  have a: "(''SUPERSET_FEATURE_'' @ ''ALERT_REPORTS'', ''true'') \<in> set (os_environ flags_env)
           \<and> ''ALERT_REPORTS'' = CHR ''A'' # ''LERT_REPORTS'' \<and> in_class WordChar CHR ''A''"
    using flags_env_facts(4) by simp
  have p: "example_parse_boolean_string ''true''"
    by (simp add: example_parse_boolean_string_def)
  have n2: "\<not> (\<exists>val c rest. (''SUPERSET_FEATURE_'' @ [], val) \<in> set (os_environ flags_env)
                    \<and> [] = c # rest \<and> in_class WordChar c)"
    by simp
  note t = feature_flags_overridable_by_environment [OF flags_env_facts(1) l nb]
  note t1 = t [THEN conjunct2, THEN conjunct1, rule_format]
    and t2 = t [THEN conjunct2, THEN conjunct2, rule_format]
  from t1 [OF a] p have 1: "feature_flag config ''ALERT_REPORTS'' = Some (PyBool True)"
    by simp
  from t2 [OF flags_env_facts(5)] have 2: "feature_flag config ''DRILL_BY'' = Some (PyBool True)"
    by (simp only: default_feature_flags_examples option.map)
  from t2 [OF n2] have 3: "feature_flag config [] = None"
    by (simp only: default_feature_flags_examples option.map)
  from 1 2 3 l have "case load_config example_parse_boolean_string flags_env example_defaults of
         Inl ex \<Rightarrow> False
       | Inr config \<Rightarrow>
           feature_flag config ''ALERT_REPORTS'' = Some (PyBool True)
           \<and> feature_flag config ''DRILL_BY'' = Some (PyBool True)
           \<and> feature_flag config [] = None"
    by simp
  with flags_env_facts(1) nb default_feature_flags_examples(1) show ?thesis by (intro conjI)
qed

text \<open>
  C5 as stated fails: with the variable \<open>SUPERSET_FEATURE_ALERT_REPORTS=true\<close> in the
  environment and a deployment override that assigns \<open>DEFAULT_FEATURE_FLAGS\<close> a dict of its own,
  the override block replaces the dict that the update wrote to. After \<open>config.py\<close> has loaded,
  \<open>DEFAULT_FEATURE_FLAGS\<close> has no \<open>ALERT_REPORTS\<close>, and \<open>DRILL_BY\<close>, which no variable names, is
  \<open>False\<close> and not its in-module default \<open>True\<close>.
\<close>

theorem override_replaces_feature_flags_counterexample:
  "(''SUPERSET_FEATURE_ALERT_REPORTS'', ''true'') \<in> set (os_environ flags_override_env)
   \<and> example_parse_boolean_string ''true''
   \<and> (case load_config example_parse_boolean_string flags_override_env example_defaults of
         Inl ex \<Rightarrow> False
       | Inr config \<Rightarrow>
           config ''DEFAULT_FEATURE_FLAGS'' = Some (PyDict [(''DRILL_BY'', PyBool False)])
           \<and> feature_flag config ''ALERT_REPORTS'' = None
           \<and> feature_flag config ''DRILL_BY'' = Some (PyBool False))
   \<and> dict_of DEFAULT_FEATURE_FLAGS ''DRILL_BY'' = Some True"
proof -
  have p: "example_parse_boolean_string ''true''"
    by (simp add: example_parse_boolean_string_def)
  have nb: "''DEFAULT_FEATURE_FLAGS'' \<notin> set block_names" by (simp add: block_names_def)
  have o: "map_of (attributes flags_override) ''DEFAULT_FEATURE_FLAGS'' =
             Some (PyDict [(''DRILL_BY'', PyBool False)])"
    by (simp add: flags_override_def)
  from load_override_path [OF flags_override_env_facts(1,2)]
  obtain config where
    l: "load_config example_parse_boolean_string flags_override_env example_defaults =
          Inr config"
    and c: "\<forall>name. name \<notin> set block_names \<longrightarrow>
              config name =
                (if isupper name \<and> map_of (attributes flags_override) name \<noteq> None
                 then map_of (attributes flags_override) name
                 else (example_defaults(''DEFAULT_FEATURE_FLAGS'' \<mapsto>
                         PyDict (feature_flag_items example_parse_boolean_string
                                   (os_environ flags_override_env)))) name)"
    unfolding load_config_def by blast
  from c nb o isupper_DEFAULT_FEATURE_FLAGS
  have d: "config ''DEFAULT_FEATURE_FLAGS'' = Some (PyDict [(''DRILL_BY'', PyBool False)])"
    by simp
  then have f: "feature_flag config ''ALERT_REPORTS'' = None"
    "feature_flag config ''DRILL_BY'' = Some (PyBool False)"
    by (simp_all add: feature_flag_def dict_of_def)
  from d f l have "case load_config example_parse_boolean_string flags_override_env
                          example_defaults of
         Inl ex \<Rightarrow> False
       | Inr config \<Rightarrow>
           config ''DEFAULT_FEATURE_FLAGS'' = Some (PyDict [(''DRILL_BY'', PyBool False)])
           \<and> feature_flag config ''ALERT_REPORTS'' = None
           \<and> feature_flag config ''DRILL_BY'' = Some (PyBool False)"
    by simp
  with flags_override_env_facts(3) p default_feature_flags_examples(2) show ?thesis
    by (intro conjI)
qed

end
